theory Spec2Isabelle
  imports Complex_Main "HOL-Library.Word"
begin


unbundle bit_operations_syntax

section \<open>The RGBDE decode and reconstruction pipeline of webapp/src/geometry.js\<close>

text \<open>
  JavaScript numbers are modelled as \<^typ>\<open>real\<close>: every arithmetic operation is the exact
  one, and neither the rounding of a double, nor the rounding of a store into a
  Float32Array, nor NaN is part of the model. Integers that the source treats bitwise are
  32-bit words; the elements of a Uint8Array or Uint8ClampedArray are 8-bit words and the
  elements of a Uint32Array are 32-bit words. A typed array is a list of its elements; a
  write beyond its end is dropped by JavaScript, which is what \<open>xs[i := v]\<close> does.
  A read beyond the end is \<open>undefined\<close> in JavaScript and unspecified here, so every
  theorem that reads a buffer states the buffer sizes it relies on.
\<close>

subsection \<open>Constants\<close>

definition TARGET_MESH :: int where "TARGET_MESH = 250000"
definition MESH_DIFF :: int where "MESH_DIFF = 2000"
definition MIN_DEPTH_CLAMP :: real where "MIN_DEPTH_CLAMP = 0.15"
definition OFFSET :: real where "OFFSET = 0.3"
definition CENTER_Z_MIN :: real where "CENTER_Z_MIN = - 4.0"
definition CENTER_Z_MAX :: real where "CENTER_Z_MAX = - 0.25"
definition MIN_FOV_Y :: real where "MIN_FOV_Y = (30 * pi) / 180"
definition MAX_FOV_Y :: real where "MAX_FOV_Y = (110 * pi) / 180"
definition DEPTH_SPIKE_THRESHOLD :: real where "DEPTH_SPIKE_THRESHOLD = 0.45"
definition DEPTH_STABLE_TOLERANCE :: real where "DEPTH_STABLE_TOLERANCE = 0.12"
definition COLOR_EDGE_THRESHOLD :: real where "COLOR_EDGE_THRESHOLD = 0.1"
definition SMOOTH_BLEND :: real where "SMOOTH_BLEND = 0.3"
definition BILATERAL_DEPTH_SIGMA :: real where "BILATERAL_DEPTH_SIGMA = 0.35"
definition BILATERAL_COLOR_SIGMA :: real where "BILATERAL_COLOR_SIGMA = 0.08"

definition SPATIAL_KERNEL :: "real list" where
  "SPATIAL_KERNEL =
     [0.075, 0.124, 0.075,
      0.124, 0.204, 0.124,
      0.075, 0.124, 0.075]"

definition DEFAULT_CENTER_Z :: real where "DEFAULT_CENTER_Z = CENTER_Z_MIN"

subsection \<open>JavaScript integer operators\<close>

type_synonym byte = "8 word"

text \<open>\<open>v << n\<close>: the left operand as a 32-bit word, shifted by \<open>n mod 32\<close>, read signed.\<close>

definition js_shl :: "int \<Rightarrow> nat \<Rightarrow> int" where
  "js_shl v n = sint (push_bit (n mod 32) (word_of_int v :: 32 word))"

text \<open>\<open>v >>> 0\<close>: the operand as a 32-bit word, read unsigned.\<close>

definition js_ushr0 :: "int \<Rightarrow> int" where
  "js_ushr0 v = uint (word_of_int v :: 32 word)"

text \<open>\<open>Math.round\<close> rounds to the nearest integer, a half towards plus infinity.\<close>

definition js_round :: "real \<Rightarrow> int" where
  "js_round v = \<lfloor>v + 1 / 2\<rfloor>"

subsection \<open>decodeRgbdeFile: splitting the halves and decoding the depth\<close>

text \<open>
  Every failure of the source is \<open>throw new Error(message)\<close>; there is one error class,
  told apart by its message.
\<close>

datatype js_error = Error string

text \<open>What \<open>parsePng\<close> returns: \<open>{ width, height, data }\<close>.\<close>

record parsed_png =
  png_width :: nat
  png_height :: nat
  png_data :: "byte list"

text \<open>Lines 59 and 60: the four bytes of a right-half pixel, as a number.\<close>

definition encodeBytes :: "byte \<Rightarrow> byte \<Rightarrow> byte \<Rightarrow> byte \<Rightarrow> int" where
  "encodeBytes r g b a =
     js_ushr0 (js_ushr0 (js_shl (uint a) 24) + js_shl (uint b) 16 + js_shl (uint g) 8 + uint r)"

definition decodePixel :: "byte \<Rightarrow> byte \<Rightarrow> byte \<Rightarrow> byte \<Rightarrow> real" where
  "decodePixel r g b a = real_of_int (encodeBytes r g b a) / 10000"

text \<open>
  The first inner loop (lines 42 to 49) copies the left half of row \<open>y\<close> into
  \<open>leftPixels\<close>, the second (lines 50 to 66) decodes the right half into
  \<open>depthValues\<close>. The running \<open>depthMin\<close> and \<open>depthMax\<close> of lines 35, 36 and 62 to 71
  are not read after the loops (the statistics returned are recomputed from the smoothed
  grid), so the loop state is the two output buffers.
\<close>

definition copyLeftPixel :: "byte list \<Rightarrow> nat \<Rightarrow> nat \<Rightarrow> nat \<Rightarrow> byte list \<Rightarrow> byte list" where
  "copyLeftPixel data srcRow leftRow x leftPixels =
     (let srcIndex = srcRow + x * 4;
          dstIndex = leftRow + x * 4
      in leftPixels[dstIndex := data ! srcIndex,
                    dstIndex + 1 := data ! (srcIndex + 1),
                    dstIndex + 2 := data ! (srcIndex + 2),
                    dstIndex + 3 := 255])"

definition decodeDepthPixel :: "byte list \<Rightarrow> nat \<Rightarrow> nat \<Rightarrow> nat \<Rightarrow> nat \<Rightarrow> real list \<Rightarrow> real list" where
  "decodeDepthPixel data rightRow width y x depthValues =
     (let depthIndex = rightRow + x * 4;
          r = data ! depthIndex;
          g = data ! (depthIndex + 1);
          b = data ! (depthIndex + 2);
          a = data ! (depthIndex + 3);
          depth = decodePixel r g b a
      in depthValues[y * width + x := depth])"

definition splitRow :: "byte list \<Rightarrow> nat \<Rightarrow> nat \<Rightarrow> nat \<Rightarrow> byte list \<times> real list \<Rightarrow> byte list \<times> real list" where
  "splitRow data fullWidth width y st =
     (let srcRow = y * fullWidth * 4;
          leftRow = y * width * 4;
          rightRow = srcRow + width * 4
      in (fold (copyLeftPixel data srcRow leftRow) [0..<width] (fst st),
          fold (decodeDepthPixel data rightRow width y) [0..<width] (snd st)))"

definition splitHalves :: "parsed_png \<Rightarrow> byte list \<times> real list" where
  "splitHalves png =
     (let fullWidth = png_width png;
          height = png_height png;
          width = fullWidth div 2
      in fold (splitRow (png_data png) fullWidth width) [0..<height]
           (replicate (width * height * 4) 0, replicate (width * height) 0))"

subsection \<open>The depth denoiser: reduceDepthSpikes and applyEdgeAwareSmooth\<close>

definition byteValue :: "byte \<Rightarrow> real" where
  "byteValue c = real (unat c)"

definition colorDistance :: "real \<Rightarrow> real \<Rightarrow> real \<Rightarrow> real \<Rightarrow> real \<Rightarrow> real \<Rightarrow> real" where
  "colorDistance r1 g1 b1 r2 g2 b2 =
     (let dr = (r1 - r2) / 255;
          dg = (g1 - g2) / 255;
          db = (b1 - b2) / 255
      in sqrt (dr * dr + dg * dg + db * db))"

definition clampIndex :: "int \<Rightarrow> int \<Rightarrow> int" where
  "clampIndex v n = (if v < 0 then 0 else if v \<ge> n then n - 1 else v)"

text \<open>The offsets \<open>(ky, kx)\<close> in the order of the two nested loops over \<open>-1, 0, 1\<close>.\<close>

definition kernelOffsets :: "(int \<times> int) list" where
  "kernelOffsets = concat (map (\<lambda>ky. map (\<lambda>kx. (ky, kx)) [- 1, 0, 1]) [- 1, 0, 1])"

text \<open>Lines 106 to 113: the nine depths around \<open>(x, y)\<close>, coordinates clamped to the grid.\<close>

definition depthWindow :: "real list \<Rightarrow> nat \<Rightarrow> nat \<Rightarrow> nat \<Rightarrow> nat \<Rightarrow> real list" where
  "depthWindow depthGrid width height x y =
     map (\<lambda>(ky, kx).
            let ny = clampIndex (int y + ky) (int height);
                nx = clampIndex (int x + kx) (int width)
            in depthGrid ! nat (ny * int width + nx))
         kernelOffsets"

text \<open>Lines 129 to 142: one neighbour of the second loop; the state is
  \<open>(stableCount, colorDiffAccum, neighborCount)\<close>.\<close>

definition spikeNeighbour ::
  "real list \<Rightarrow> byte list \<Rightarrow> nat \<Rightarrow> nat \<Rightarrow> nat \<Rightarrow> nat \<Rightarrow> real \<Rightarrow> real \<Rightarrow> real \<Rightarrow> real \<Rightarrow>
   int \<times> int \<Rightarrow> nat \<times> real \<times> nat \<Rightarrow> nat \<times> real \<times> nat" where
  "spikeNeighbour depthGrid colors width height x y median cr cg cb k st =
     (case k of (ky, kx) \<Rightarrow>
        (case st of (stableCount, colorDiffAccum, neighborCount) \<Rightarrow>
           if kx = 0 \<and> ky = 0 then st
           else
             let ny = clampIndex (int y + ky) (int height);
                 nx = clampIndex (int x + kx) (int width);
                 neighbor = depthGrid ! nat (ny * int width + nx);
                 stableCount' =
                   (if \<bar>neighbor - median\<bar> < DEPTH_STABLE_TOLERANCE
                    then stableCount + 1 else stableCount);
                 no = nat ((ny * int width + nx) * 4)
             in (stableCount',
                 colorDiffAccum +
                   colorDistance cr cg cb (byteValue (colors ! no))
                     (byteValue (colors ! (no + 1))) (byteValue (colors ! (no + 2))),
                 neighborCount + 1)))"

text \<open>
  The body of the pixel loop of \<open>reduceDepthSpikes\<close> (lines 101 to 146). A \<open>continue\<close>
  leaves \<open>result\<close> as it is. The median is finite in this model, so the test of line 116
  never fires.
\<close>

definition spikePixel ::
  "real list \<Rightarrow> byte list \<Rightarrow> nat \<Rightarrow> nat \<Rightarrow> nat \<Rightarrow> nat \<Rightarrow> real list \<Rightarrow> real list" where
  "spikePixel depthGrid colors width height y x result =
     (let idx = y * width + x;
          center = depthGrid ! idx
      in if center \<le> 0 then result
         else
           let sorted = sort (depthWindow depthGrid width height x y);
               median = sorted ! (length sorted div 2)
           in if \<bar>center - median\<bar> \<le> DEPTH_SPIKE_THRESHOLD then result
              else
                let baseOffset = idx * 4;
                    cr = byteValue (colors ! baseOffset);
                    cg = byteValue (colors ! (baseOffset + 1));
                    cb = byteValue (colors ! (baseOffset + 2));
                    acc = fold (spikeNeighbour depthGrid colors width height x y median cr cg cb)
                            kernelOffsets (0, 0, 0);
                    stableCount = fst acc;
                    colorDiffAccum = fst (snd acc);
                    neighborCount = snd (snd acc);
                    avgColorDiff =
                      (if neighborCount > 0 then colorDiffAccum / real neighborCount else 0)
                in if stableCount \<ge> 5 \<and> avgColorDiff < COLOR_EDGE_THRESHOLD
                   then result[idx := median] else result)"

definition reduceDepthSpikes :: "real list \<Rightarrow> byte list \<Rightarrow> nat \<Rightarrow> nat \<Rightarrow> real list" where
  "reduceDepthSpikes depthGrid colors width height =
     fold (\<lambda>y. fold (spikePixel depthGrid colors width height y) [0..<width]) [0..<height]
       depthGrid"

text \<open>Lines 171 to 183: one neighbour of the bilateral sum; the state is
  \<open>(accum, weightSum, kernelIndex)\<close>.\<close>

definition smoothNeighbour ::
  "real list \<Rightarrow> byte list \<Rightarrow> nat \<Rightarrow> nat \<Rightarrow> nat \<Rightarrow> nat \<Rightarrow> real \<Rightarrow> real \<Rightarrow> real \<Rightarrow> real \<Rightarrow>
   int \<times> int \<Rightarrow> real \<times> real \<times> nat \<Rightarrow> real \<times> real \<times> nat" where
  "smoothNeighbour depthGrid colors width height x y center cr cg cb k st =
     (case k of (ky, kx) \<Rightarrow>
        (case st of (accum, weightSum, kernelIndex) \<Rightarrow>
           let ny = clampIndex (int y + ky) (int height);
               nx = clampIndex (int x + kx) (int width);
               neighbor = depthGrid ! nat (ny * int width + nx);
               spatial = SPATIAL_KERNEL ! kernelIndex;
               depthDiff = neighbor - center;
               depthWeight =
                 exp (- (depthDiff * depthDiff) / (2 * BILATERAL_DEPTH_SIGMA * BILATERAL_DEPTH_SIGMA));
               no = nat ((ny * int width + nx) * 4);
               colorDiff =
                 colorDistance cr cg cb (byteValue (colors ! no))
                   (byteValue (colors ! (no + 1))) (byteValue (colors ! (no + 2)));
               colorWeight =
                 exp (- (colorDiff * colorDiff) / (2 * BILATERAL_COLOR_SIGMA * BILATERAL_COLOR_SIGMA));
               weight = spatial * depthWeight * colorWeight
           in (accum + neighbor * weight, weightSum + weight, kernelIndex + 1)))"

text \<open>
  Lines 156 to 186: the value that the pixel loop of \<open>applyEdgeAwareSmooth\<close> stores at
  \<open>result[idx]\<close>, which is \<open>center\<close> on the branch of line 159 and the blend of line 186
  otherwise.
\<close>

definition smoothedValue :: "real list \<Rightarrow> byte list \<Rightarrow> nat \<Rightarrow> nat \<Rightarrow> nat \<Rightarrow> nat \<Rightarrow> real" where
  "smoothedValue depthGrid colors width height y x =
     (let idx = y * width + x;
          center = depthGrid ! idx
      in if center \<le> 0 then center
         else
           let baseOffset = idx * 4;
               cr = byteValue (colors ! baseOffset);
               cg = byteValue (colors ! (baseOffset + 1));
               cb = byteValue (colors ! (baseOffset + 2));
               acc = fold (smoothNeighbour depthGrid colors width height x y center cr cg cb)
                       kernelOffsets (0, 0, 0);
               accum = fst acc;
               weightSum = fst (snd acc);
               smoothed = (if weightSum > 0 then accum / weightSum else center)
           in center + (smoothed - center) * SMOOTH_BLEND)"

definition smoothPixel ::
  "real list \<Rightarrow> byte list \<Rightarrow> nat \<Rightarrow> nat \<Rightarrow> nat \<Rightarrow> nat \<Rightarrow> real list \<Rightarrow> real list" where
  "smoothPixel depthGrid colors width height y x result =
     result[y * width + x := smoothedValue depthGrid colors width height y x]"

definition applyEdgeAwareSmooth :: "real list \<Rightarrow> byte list \<Rightarrow> nat \<Rightarrow> nat \<Rightarrow> real list" where
  "applyEdgeAwareSmooth depthGrid colors width height =
     fold (\<lambda>y. fold (smoothPixel depthGrid colors width height y) [0..<width]) [0..<height]
       (replicate (length depthGrid) 0)"

text \<open>Both arrays exist when \<open>decodeRgbdeFile\<close> calls it, so the guard of line 88 is not taken.\<close>

definition preprocessDepth :: "real list \<Rightarrow> byte list \<Rightarrow> nat \<Rightarrow> nat \<Rightarrow> real list" where
  "preprocessDepth depthGrid colors width height =
     (let spikeReduced = reduceDepthSpikes depthGrid colors width height
      in applyEdgeAwareSmooth spikeReduced colors width height)"

subsection \<open>computeDepthStats and the result of decodeRgbdeFile\<close>

text \<open>The running minimum starts at plus infinity, which is \<open>None\<close> here.\<close>

definition statStep :: "real \<Rightarrow> real option \<times> real \<Rightarrow> real option \<times> real" where
  "statStep d st =
     (if d > 0
      then ((case fst st of None \<Rightarrow> Some d | Some m \<Rightarrow> if d < m then Some d else Some m),
            (if d > snd st then d else snd st))
      else st)"

definition computeDepthStats :: "real list \<Rightarrow> real \<times> real" where
  "computeDepthStats depthGrid =
     (let st = fold statStep depthGrid (None, 0);
          mn = (case fst st of None \<Rightarrow> MIN_DEPTH_CLAMP | Some m \<Rightarrow> m);
          mx = (if snd st \<le> 0 then mn + 1 else snd st)
      in (mn, mx))"

text \<open>The returned object; \<open>textureImage\<close> wraps \<open>leftPixels\<close> with the two dimensions.\<close>

record rgbde_asset =
  asset_width :: nat
  asset_height :: nat
  asset_leftPixels :: "byte list"
  asset_depth :: "real list"
  asset_depthStats :: "real \<times> real"
  asset_textureImage :: "byte list \<times> nat \<times> nat"

text \<open>
  \<open>decodeRgbdeFile\<close> after \<open>await parsePng(blob)\<close>: the argument is what \<open>parsePng\<close>
  gave, an error it threw (which propagates) or the parsed image.
\<close>

definition decodeRgbdeFile :: "js_error + parsed_png \<Rightarrow> js_error + rgbde_asset" where
  "decodeRgbdeFile parsed =
     (case parsed of
        Inl e \<Rightarrow> Inl e
      | Inr png \<Rightarrow>
          let fullWidth = png_width png;
              height = png_height png
          in if fullWidth mod 2 \<noteq> 0
             then Inl (Error ''RGBDE PNG must have even width (RGB + depth halves).'')
             else
               let width = fullWidth div 2;
                   halves = splitHalves png;
                   smoothedDepth = preprocessDepth (snd halves) (fst halves) width height;
                   stats = computeDepthStats smoothedDepth
               in Inr \<lparr>asset_width = width, asset_height = height,
                        asset_leftPixels = fst halves, asset_depth = smoothedDepth,
                        asset_depthStats = stats,
                        asset_textureImage = (fst halves, width, height)\<rparr>)"

subsection \<open>findBestMeshSize\<close>

text \<open>
  The loop state is \<open>(bestError, bestX, bestY)\<close>; \<open>bestError\<close> starts at plus infinity,
  which is \<open>None\<close>. When \<open>approxY\<close> is 0 the product is 0, below \<open>minMesh\<close>, so the
  quotient of line 234 always has a divisor that is not 0.
\<close>

definition meshCandidate ::
  "real \<Rightarrow> int \<Rightarrow> int \<Rightarrow> int \<Rightarrow> real option \<times> int \<times> int \<Rightarrow> real option \<times> int \<times> int" where
  "meshCandidate aspectRatio minMesh maxMesh t st =
     (let approxX = js_round (sqrt (real_of_int t * aspectRatio))
      in if approxX \<le> 0 then st
         else
           let approxY = js_round (real_of_int t / real_of_int approxX);
               product = approxX * approxY
           in if product < minMesh \<or> product > maxMesh then st
              else
                let ratioError = \<bar>real_of_int approxX / real_of_int approxY - aspectRatio\<bar>
                in if (case fst st of None \<Rightarrow> True | Some bestError \<Rightarrow> ratioError < bestError)
                   then (Some ratioError, approxX, approxY)
                   else st)"

definition findBestMeshSize :: "nat \<Rightarrow> nat \<Rightarrow> int \<Rightarrow> int \<Rightarrow> int \<times> int" where
  "findBestMeshSize width height target meshDiff =
     (let aspectRatio = real width / real height;
          minMesh = max 1 (target - meshDiff);
          maxMesh = target + meshDiff
      in snd (fold (meshCandidate aspectRatio minMesh maxMesh) [minMesh..maxMesh] (None, 0, 0)))"

text \<open>A loop state that holds a candidate of the band together with its ratio error.\<close>

definition bestInBand :: "real \<Rightarrow> int \<Rightarrow> int \<Rightarrow> real option \<times> int \<times> int \<Rightarrow> bool" where
  "bestInBand A mn mx st =
     (case st of (e, bx, by) \<Rightarrow>
        e = Some \<bar>real_of_int bx / real_of_int by - A\<bar> \<and> mn \<le> bx * by \<and> bx * by \<le> mx)"

subsection \<open>sampleDepth, computeVerticalFov, normalize3\<close>

definition sampleDepth :: "real list \<Rightarrow> nat \<Rightarrow> nat \<Rightarrow> real \<Rightarrow> real \<Rightarrow> real \<Rightarrow> real" where
  "sampleDepth depthGrid width height x y fallback =
     (let ix = max 0 (min (int width - 1) \<lfloor>x\<rfloor>);
          iy = max 0 (min (int height - 1) \<lfloor>y\<rfloor>);
          fx = max 0 (min (int width - 1) \<lceil>x\<rceil>);
          fy = max 0 (min (int height - 1) \<lceil>y\<rceil>);
          tx = x - real_of_int ix;
          ty = y - real_of_int iy;
          d00 = depthGrid ! nat (iy * int width + ix);
          d10 = depthGrid ! nat (iy * int width + fx);
          d01 = depthGrid ! nat (fy * int width + ix);
          d11 = depthGrid ! nat (fy * int width + fx);
          top = d00 + (d10 - d00) * tx;
          bottom = d01 + (d11 - d01) * tx;
          v = top + (bottom - top) * ty
      in if v > 0 then v else max d00 fallback)"

definition computeVerticalFov :: "real \<Rightarrow> real" where
  "computeVerticalFov centerOffset =
     (let clamped = min (max centerOffset CENTER_Z_MIN) CENTER_Z_MAX;
          t = (clamped - CENTER_Z_MIN) / (CENTER_Z_MAX - CENTER_Z_MIN)
      in MIN_FOV_Y + (MAX_FOV_Y - MIN_FOV_Y) * t)"

definition normalize3 :: "real \<Rightarrow> real \<Rightarrow> real \<Rightarrow> real \<times> real \<times> real" where
  "normalize3 x y z =
     (let len = sqrt (x * x + y * y + z * z)
      in if len = 0 then (0, 0, 1) else (x / len, y / len, z / len))"

subsection \<open>generatePerspectiveMesh\<close>

text \<open>
  The five buffers of a mesh are five arrays of their own, allocated at lines 256 to 261,
  so the record holds their contents. The allocations are taken to succeed. \<open>baseMinZ\<close>
  and \<open>baseMaxZ\<close> start at plus and minus infinity, which is \<open>None\<close>.
\<close>

record mesh_descriptor =
  positions :: "real list"
  rayDirections :: "real list"
  baseDepths :: "real list"
  uvs :: "real list"
  indices :: "32 word list"
  vertexCount :: nat
  indexCount :: nat
  baseDepthMin :: real
  baseDepthMax :: real
  meshX :: nat
  meshY :: nat
  baseMinZ :: "real option"
  baseMaxZ :: "real option"

text \<open>The state of the vertex loop (lines 280 to 312).\<close>

record vertex_loop =
  vl_positions :: "real list"
  vl_rayDirections :: "real list"
  vl_baseDepths :: "real list"
  vl_uvs :: "real list"
  vl_baseMinZ :: "real option"
  vl_baseMaxZ :: "real option"
  vl_index :: nat

definition meshVertex ::
  "real list \<Rightarrow> nat \<Rightarrow> nat \<Rightarrow> nat \<Rightarrow> nat \<Rightarrow> real \<Rightarrow> real \<Rightarrow> real \<Rightarrow> real \<Rightarrow> real \<Rightarrow>
   nat \<Rightarrow> nat \<Rightarrow> vertex_loop \<Rightarrow> vertex_loop" where
  "meshVertex depthGrid width height mX mY depthMin widthMinusOne heightMinusOne
       tanHalfX tanHalfY lat lon st =
     (let meshV = real lat / real mY;
          pixelY = meshV * heightMinusOne;
          u = real lon / real mX;
          pixelX = u * widthMinusOne;
          screenX = (u - 0.5) * 2 * tanHalfX;
          screenY = (0.5 - meshV) * 2 * tanHalfY;
          dir = normalize3 screenX screenY 1;
          depthValue = sampleDepth depthGrid width height pixelX pixelY depthMin;
          px = fst dir * depthValue;
          py = fst (snd dir) * depthValue;
          pz = - snd (snd dir) * depthValue;
          i = vl_index st
      in \<lparr>vl_positions = (vl_positions st)[i * 3 := px, i * 3 + 1 := py, i * 3 + 2 := pz],
          vl_rayDirections =
            (vl_rayDirections st)[i * 3 := fst dir, i * 3 + 1 := fst (snd dir),
                                  i * 3 + 2 := - snd (snd dir)],
          vl_baseDepths = (vl_baseDepths st)[i := depthValue],
          vl_uvs = (vl_uvs st)[i * 2 := pixelX / widthMinusOne, i * 2 + 1 := meshV],
          vl_baseMinZ =
            (case vl_baseMinZ st of None \<Rightarrow> Some pz
             | Some m \<Rightarrow> if pz < m then Some pz else Some m),
          vl_baseMaxZ =
            (case vl_baseMaxZ st of None \<Rightarrow> Some pz
             | Some m \<Rightarrow> if pz > m then Some pz else Some m),
          vl_index = i + 1\<rparr>)"

text \<open>The body of the triangle loop (lines 317 to 324); the state is \<open>(indices, tri)\<close>.
  A store into a Uint32Array keeps the value modulo \<open>2 ^ 32\<close>.\<close>

definition meshCell :: "nat \<Rightarrow> nat \<Rightarrow> nat \<Rightarrow> 32 word list \<times> nat \<Rightarrow> 32 word list \<times> nat" where
  "meshCell mX lat lon st =
     (let current = lat * (mX + 1) + lon;
          next = current + mX + 1;
          tri = snd st
      in ((fst st)[tri := of_nat current,
                   tri + 1 := of_nat next,
                   tri + 2 := of_nat (current + 1),
                   tri + 3 := of_nat (current + 1),
                   tri + 4 := of_nat next,
                   tri + 5 := of_nat (next + 1)],
          tri + 6))"

text \<open>\<open>fovDegrees\<close> is \<open>Some\<close> of a finite number, or \<open>None\<close> when it is absent or not
  finite.\<close>

definition generatePerspectiveMesh ::
  "real list \<Rightarrow> nat \<Rightarrow> nat \<Rightarrow> nat \<Rightarrow> nat \<Rightarrow> real \<Rightarrow> real \<Rightarrow> real \<Rightarrow> real option \<Rightarrow>
   mesh_descriptor" where
  "generatePerspectiveMesh depthGrid width height mX mY depthMin depthMax centerZ fovDegrees =
     (let vertCount = (mX + 1) * (mY + 1);
          widthMinusOne = max 1 (real width - 1);
          heightMinusOne = max 1 (real height - 1);
          fovY = (case fovDegrees of
                    Some deg \<Rightarrow> (min (max deg 15) 120 * pi) / 180
                  | None \<Rightarrow> computeVerticalFov centerZ);
          aspect = real width / real height;
          fovX = 2 * arctan (tan (fovY / 2) * aspect);
          tanHalfX = tan (fovX / 2);
          tanHalfY = tan (fovY / 2);
          vs = fold (\<lambda>lat. fold (meshVertex depthGrid width height mX mY depthMin
                                    widthMinusOne heightMinusOne tanHalfX tanHalfY lat)
                               [0..<mX + 1])
                 [0..<mY + 1]
                 \<lparr>vl_positions = replicate (vertCount * 3) 0,
                  vl_rayDirections = replicate (vertCount * 3) 0,
                  vl_baseDepths = replicate vertCount 0,
                  vl_uvs = replicate (vertCount * 2) 0,
                  vl_baseMinZ = None, vl_baseMaxZ = None, vl_index = 0\<rparr>;
          ts = fold (\<lambda>lat. fold (meshCell mX lat) [0..<mX]) [0..<mY]
                 (replicate (mX * mY * 6) 0, 0)
      in \<lparr>positions = vl_positions vs,
          rayDirections = vl_rayDirections vs,
          baseDepths = vl_baseDepths vs,
          uvs = vl_uvs vs,
          indices = fst ts,
          vertexCount = vertCount,
          indexCount = length (fst ts),
          baseDepthMin = max depthMin MIN_DEPTH_CLAMP,
          baseDepthMax = depthMax,
          meshX = mX,
          meshY = mY,
          baseMinZ = vl_baseMinZ vs,
          baseMaxZ = vl_baseMaxZ vs\<rparr>)"

subsection \<open>updateVertexPositions\<close>

text \<open>A number that may be one of the three values that are not finite, as \<open>farClip\<close> may.\<close>

datatype js_number = Num real | PosInfinity | NegInfinity | NaN

record depth_options =
  magnification :: real
  farClip :: js_number
  mode :: string
  logPower :: real

text \<open>\<open>Math.min(v, farLimit)\<close>, where the limit \<open>None\<close> is plus infinity.\<close>

definition minLimit :: "real \<Rightarrow> real option \<Rightarrow> real" where
  "minLimit v farLimit = (case farLimit of None \<Rightarrow> v | Some f \<Rightarrow> min v f)"

text \<open>Lines 368 to 373: the shaped and magnified depth \<open>scaled\<close> of a vertex whose base
  depth is \<open>base\<close>.\<close>

definition scaledDepth :: "real \<Rightarrow> depth_options \<Rightarrow> real \<Rightarrow> real" where
  "scaledDepth minDepth opts base =
     (let scaledMin = minDepth;
          relative = max (base - minDepth + OFFSET) 0.001;
          shaped = (if mode opts = ''log''
                    then minDepth + ln (1 + relative powr logPower opts)
                    else base)
      in scaledMin + magnification opts * (shaped - scaledMin))"

text \<open>Line 374: the depth along the ray that the vertex is moved to.\<close>

definition remapDepth :: "real \<Rightarrow> real option \<Rightarrow> depth_options \<Rightarrow> real \<Rightarrow> real" where
  "remapDepth minDepth farLimit opts base =
     (let scaledMin = minDepth;
          scaled = scaledDepth minDepth opts base
      in minLimit (max scaled (scaledMin + 0.001)) farLimit)"

definition remapVertex ::
  "real \<Rightarrow> real option \<Rightarrow> depth_options \<Rightarrow> nat \<Rightarrow> mesh_descriptor \<Rightarrow> mesh_descriptor" where
  "remapVertex minDepth farLimit opts i mesh =
     (let dirX = rayDirections mesh ! (i * 3);
          dirY = rayDirections mesh ! (i * 3 + 1);
          dirZ = rayDirections mesh ! (i * 3 + 2);
          base = baseDepths mesh ! i;
          d = remapDepth minDepth farLimit opts base
      in mesh\<lparr>positions :=
                (positions mesh)[i * 3 := dirX * d, i * 3 + 1 := dirY * d, i * 3 + 2 := dirZ * d]\<rparr>)"

definition updateVertexPositions :: "mesh_descriptor \<Rightarrow> depth_options \<Rightarrow> mesh_descriptor" where
  "updateVertexPositions mesh opts =
     (let minDepth = max (baseDepthMin mesh) MIN_DEPTH_CLAMP;
          farLimit = (case farClip opts of Num f \<Rightarrow> Some f | _ \<Rightarrow> None)
      in fold (remapVertex minDepth farLimit opts) [0..<length (baseDepths mesh)] mesh)"

text \<open>The three components that a ray buffer stores for vertex \<open>i\<close> have unit length.\<close>

definition unitRay :: "real list \<Rightarrow> nat \<Rightarrow> bool" where
  "unitRay dirs i =
     ((dirs ! (i * 3))\<^sup>2 + (dirs ! (i * 3 + 1))\<^sup>2 + (dirs ! (i * 3 + 2))\<^sup>2 = 1)"

subsection \<open>The spec's reading of the sampler\<close>

text \<open>
  Following the spec's words (section 4.5 and the open question of section 9), to be
  compared with \<open>sampleDepth\<close>: the bilinear interpolation of the four samples around
  \<open>(x, y)\<close>, with the weights of the standard formula, and the nearest top-left sample.
\<close>

definition nearestTopLeft :: "real list \<Rightarrow> nat \<Rightarrow> nat \<Rightarrow> real \<Rightarrow> real \<Rightarrow> real" where
  "nearestTopLeft depthGrid width height x y =
     depthGrid ! nat (max 0 (min (int height - 1) \<lfloor>y\<rfloor>) * int width
                       + max 0 (min (int width - 1) \<lfloor>x\<rfloor>))"

definition bilinearDepth :: "real list \<Rightarrow> nat \<Rightarrow> nat \<Rightarrow> real \<Rightarrow> real \<Rightarrow> real" where
  "bilinearDepth depthGrid width height x y =
     (let ix = max 0 (min (int width - 1) \<lfloor>x\<rfloor>);
          iy = max 0 (min (int height - 1) \<lfloor>y\<rfloor>);
          fx = max 0 (min (int width - 1) \<lceil>x\<rceil>);
          fy = max 0 (min (int height - 1) \<lceil>y\<rceil>);
          tx = x - real_of_int ix;
          ty = y - real_of_int iy
      in (1 - tx) * (1 - ty) * depthGrid ! nat (iy * int width + ix)
         + tx * (1 - ty) * depthGrid ! nat (iy * int width + fx)
         + (1 - tx) * ty * depthGrid ! nat (fy * int width + ix)
         + tx * ty * depthGrid ! nat (fy * int width + fx))"

subsection \<open>A mesh of one cell\<close>

text \<open>
  A tessellation of one column and one row: four vertices whose rays go through the
  corners of the image (unit vectors \<open>(\<plusminus>3, \<plusminus>4, -12) / 13\<close>), with base depths 1, 2, 2
  and 20, positions \<open>ray * depth\<close> and the two triangles of lines 319 to 324.
\<close>

definition quadMesh :: mesh_descriptor where
  "quadMesh =
     \<lparr>positions = [- 3 / 13, 4 / 13, - 12 / 13,  6 / 13, 8 / 13, - 24 / 13,
                   - 6 / 13, - 8 / 13, - 24 / 13,  60 / 13, - 80 / 13, - 240 / 13],
      rayDirections = [- 3 / 13, 4 / 13, - 12 / 13,  3 / 13, 4 / 13, - 12 / 13,
                       - 3 / 13, - 4 / 13, - 12 / 13,  3 / 13, - 4 / 13, - 12 / 13],
      baseDepths = [1, 2, 2, 20],
      uvs = [0, 0, 1, 0, 0, 1, 1, 1],
      indices = [0, 2, 1, 1, 2, 3],
      vertexCount = 4, indexCount = 6,
      baseDepthMin = 1, baseDepthMax = 20,
      meshX = 1, meshY = 1,
      baseMinZ = Some (- 240 / 13), baseMaxZ = Some (- 12 / 13)\<rparr>"

section \<open>Helper lemmas: loops that store into a buffer\<close>

lemma fold_row_length:
  assumes "\<And>x r. f x r = r[b + x := v x]"
  shows "length (fold f [0..<n] r) = length r"
  by (induction n) (simp_all add: assms)

lemma fold_row_nth:
  assumes "\<And>x r. f x r = r[b + x := v x]"
  shows "fold f [0..<n] r ! j =
           (if b \<le> j \<and> j < b + n \<and> j < length r then v (j - b) else r ! j)"
proof (induction n)
  case 0
  then show ?case by auto
next
  case (Suc n)
  have len: "length (fold f [0..<n] r) = length r"
    using assms by (rule fold_row_length)
  have fs: "fold f [0..<Suc n] r = (fold f [0..<n] r)[b + n := v n]"
    by (simp add: assms [of n])
  show ?case
  proof (cases "j = b + n")
    case True
    show ?thesis
    proof (cases "j < length r")
      case True
      with \<open>j = b + n\<close> show ?thesis
        unfolding fs by (simp add: len)
    next
      case False
      with \<open>j = b + n\<close> have "fold f [0..<Suc n] r ! j = fold f [0..<n] r ! j"
        unfolding fs by (simp add: len list_update_beyond)
      with False show ?thesis using Suc.IH by simp
    qed
  next
    case False
    then have "fold f [0..<Suc n] r ! j = fold f [0..<n] r ! j"
      unfolding fs by simp
    with False show ?thesis
      using Suc.IH by auto
  qed
qed

lemma fold_grid_length:
  assumes "\<And>y x r. f y x r = r[y * w + x := v y x]"
  shows "length (fold (\<lambda>y. fold (f y) [0..<w]) [0..<h] r) = length r"
  by (induction h) (simp_all add: fold_row_length [where f = "f _", OF assms])

lemma fold_grid_nth:
  assumes "\<And>y x r. f y x r = r[y * w + x := v y x]"
  shows "fold (\<lambda>y. fold (f y) [0..<w]) [0..<h] r ! j =
           (if j < h * w \<and> j < length r then v (j div w) (j mod w) else r ! j)"
proof (induction h)
  case 0
  then show ?case by simp
next
  case (Suc h)
  let ?r = "fold (\<lambda>y. fold (f y) [0..<w]) [0..<h] r"
  have len: "length ?r = length r"
    using assms by (rule fold_grid_length)
  have step: "fold (\<lambda>y. fold (f y) [0..<w]) [0..<Suc h] r ! j =
        (if h * w \<le> j \<and> j < h * w + w \<and> j < length r then v h (j - h * w) else ?r ! j)"
    using fold_row_nth [where f = "f h" and b = "h * w" and v = "v h" and n = w and r = ?r and j = j]
      assms by (simp add: len)
  show ?case
  proof (cases "h * w \<le> j \<and> j < h * w + w")
    case True
    then have d: "j div w = h"
      by (intro div_nat_eqI) (simp_all add: mult.commute)
    have "j mod w = j - j div w * w"
      by (simp add: modulo_nat_def mult.commute)
    with d have "j mod w = j - h * w" by simp
    with d True show ?thesis
      unfolding step using Suc.IH by simp
  next
    case False
    then show ?thesis
      unfolding step using Suc.IH by (auto simp: not_le)
  qed
qed

lemma fold_invariant:
  assumes "I s" and "\<And>x s. x \<in> set xs \<Longrightarrow> I s \<Longrightarrow> I (f x s)"
  shows "I (fold f xs s)"
  using assms by (induction xs arbitrary: s) simp_all

lemma all_list_update:
  assumes "\<forall>e \<in> set xs. P e" and "P v"
  shows "\<forall>e \<in> set (xs[i := v]). P e"
  using assms set_update_subset_insert [of xs i v] by auto

section \<open>Depth decoding\<close>













section \<open>Decode rejection\<close>

text \<open>
  Claim C5. When the width that \<open>parsePng\<close> returned is odd, \<open>decodeRgbdeFile\<close> fails with
  the error of line 28, the rejection that the spec files under FormatError. The test of
  line 27 comes before the buffers are allocated and before the loops of lines 38 to 67, so
  nothing is decoded: the outcome is the error whatever the pixel data are, and no depth
  grid is returned.
\<close>

theorem odd_width_rejected:
  assumes "odd (png_width png)"
  shows "decodeRgbdeFile (Inr png) =
           Inl (Error ''RGBDE PNG must have even width (RGB + depth halves).'')
         \<and> decodeRgbdeFile (Inr (png\<lparr>png_data := pixels\<rparr>)) = decodeRgbdeFile (Inr png)"
  using assms by (simp add: decodeRgbdeFile_def Let_def odd_iff_mod_2_eq_one)

text \<open>A container of width 3.\<close>

theorem odd_width_rejected_witness:
  "odd (png_width \<lparr>png_width = 3, png_height = 1, png_data = replicate 12 7\<rparr>)
   \<and> decodeRgbdeFile (Inr \<lparr>png_width = 3, png_height = 1, png_data = replicate 12 7\<rparr>) =
       Inl (Error ''RGBDE PNG must have even width (RGB + depth halves).'')"
  using odd_width_rejected [of "\<lparr>png_width = 3, png_height = 1, png_data = replicate 12 7\<rparr>"]
  by simp

section \<open>The shape of the mesh and its index buffer\<close>

lemma meshCell_length: "length (fst (meshCell mX lat lon st)) = length (fst st)"
  by (simp add: meshCell_def Let_def)

lemma meshCells_length:
  "length (fst (fold (\<lambda>lat. fold (meshCell mX lat) lons) lats st)) = length (fst st)"
proof (rule fold_invariant [where I = "\<lambda>s. length (fst s) = length (fst st)"])
  show "length (fst st) = length (fst st)" ..
next
  fix lat and s :: "32 word list \<times> nat"
  assume "length (fst s) = length (fst st)"
  then show "length (fst (fold (meshCell mX lat) lons s)) = length (fst st)"
    by (rule fold_invariant) (simp add: meshCell_length)
qed

lemma generate_vertexCount:
  "vertexCount (generatePerspectiveMesh g w h mX mY dmin dmax cz fov) = (mX + 1) * (mY + 1)"
  by (simp add: generatePerspectiveMesh_def Let_def)

lemma generate_indices_length:
  "length (indices (generatePerspectiveMesh g w h mX mY dmin dmax cz fov)) = mX * mY * 6"
  by (simp add: generatePerspectiveMesh_def Let_def meshCells_length)

lemma generate_indexCount:
  "indexCount (generatePerspectiveMesh g w h mX mY dmin dmax cz fov) = mX * mY * 6"
  by (simp add: generatePerspectiveMesh_def Let_def meshCells_length)

text \<open>
  Claim C7. For every tessellation with at least one column and one row, the mesh that
  \<open>generatePerspectiveMesh\<close> returns has \<open>vertexCount = (columns + 1) * (rows + 1)\<close> and an
  index buffer of \<open>columns * rows * 6\<close> entries, which is also its \<open>indexCount\<close>.
\<close>

theorem mesh_shape:
  assumes "1 \<le> mX" and "1 \<le> mY"
  shows "vertexCount (generatePerspectiveMesh g w h mX mY dmin dmax cz fov) = (mX + 1) * (mY + 1)
       \<and> length (indices (generatePerspectiveMesh g w h mX mY dmin dmax cz fov)) = mX * mY * 6
       \<and> indexCount (generatePerspectiveMesh g w h mX mY dmin dmax cz fov) = mX * mY * 6"
  by (simp add: generate_vertexCount generate_indices_length generate_indexCount)

text \<open>Two columns and one row over a grid of two by two pixels.\<close>

theorem mesh_shape_witness:
  "(1::nat) \<le> 2 \<and> (1::nat) \<le> 1
   \<and> vertexCount (generatePerspectiveMesh [1, 1, 1, 1] 2 2 2 1 1 1 DEFAULT_CENTER_Z (Some 60)) = 6
   \<and> length (indices (generatePerspectiveMesh [1, 1, 1, 1] 2 2 2 1 1 1 DEFAULT_CENTER_Z (Some 60))) = 12"
  using mesh_shape [of 2 1 "[1, 1, 1, 1]" 2 2 1 1 DEFAULT_CENTER_Z "Some 60"]
  by simp

lemma unat_of_nat32_le: "unat (of_nat v :: 32 word) \<le> v"
  by (simp add: unat_of_nat)

lemma meshCell_below:
  assumes "lat < mY" and "lon < mX"
    and "\<forall>e \<in> set (fst st). unat e < (mX + 1) * (mY + 1)"
  shows "\<forall>e \<in> set (fst (meshCell mX lat lon st)). unat e < (mX + 1) * (mY + 1)"
proof -
  have "Suc lat \<le> mY" using assms(1) by simp
  then have "Suc lat * (mX + 1) \<le> mY * (mX + 1)"
    by (rule mult_le_mono1)
  then have top: "lat * (mX + 1) + lon + mX + 1 + 1 < (mX + 1) * (mY + 1)"
    using assms(2) by (simp add: algebra_simps)
  have v: "unat (of_nat v :: 32 word) < (mX + 1) * (mY + 1)"
    if "v \<le> lat * (mX + 1) + lon + mX + 1 + 1" for v
    using that top unat_of_nat32_le [of v] by linarith
  show ?thesis
    unfolding meshCell_def Let_def fst_conv
    by (intro all_list_update assms(3) v) simp_all
qed

text \<open>
  Claim C10. For every tessellation with at least one column and one row, every entry of
  the index buffer, read as an unsigned number, is below \<open>vertexCount\<close>: each index names
  a vertex of the mesh.
\<close>

theorem indices_in_range:
  assumes "1 \<le> mX" and "1 \<le> mY"
  shows "\<forall>e \<in> set (indices (generatePerspectiveMesh g w h mX mY dmin dmax cz fov)).
           unat e < vertexCount (generatePerspectiveMesh g w h mX mY dmin dmax cz fov)"
proof -
  let ?I = "\<lambda>s :: 32 word list \<times> nat. \<forall>e \<in> set (fst s). unat e < (mX + 1) * (mY + 1)"
  have "?I (fold (\<lambda>lat. fold (meshCell mX lat) [0..<mX]) [0..<mY] (replicate (mX * mY * 6) 0, 0))"
  proof (rule fold_invariant [where I = ?I])
    show "?I (replicate (mX * mY * 6) 0, 0)" by simp
  next
    fix lat and s :: "32 word list \<times> nat"
    assume lat: "lat \<in> set [0..<mY]" and s: "?I s"
    show "?I (fold (meshCell mX lat) [0..<mX] s)"
    proof (rule fold_invariant [where I = ?I])
      show "?I s" by (rule s)
    next
      fix lon and t :: "32 word list \<times> nat"
      assume "lon \<in> set [0..<mX]" and "?I t"
      with lat show "?I (meshCell mX lat lon t)"
        by (intro meshCell_below) simp_all
    qed
  qed
  then show ?thesis
    by (simp add: generatePerspectiveMesh_def Let_def)
qed

text \<open>The same tessellation of two columns and one row, with its six vertices: the last
  of the twelve entries of its index buffer.\<close>

theorem indices_in_range_witness:
  "(1::nat) \<le> 2 \<and> (1::nat) \<le> 1
   \<and> unat (indices (generatePerspectiveMesh [1, 1, 1, 1] 2 2 2 1 1 1 DEFAULT_CENTER_Z (Some 60)) ! 11)
       < 6"
proof -
  have "indices (generatePerspectiveMesh [1, 1, 1, 1] 2 2 2 1 1 1 DEFAULT_CENTER_Z (Some 60)) ! 11
          \<in> set (indices (generatePerspectiveMesh [1, 1, 1, 1] 2 2 2 1 1 1 DEFAULT_CENTER_Z (Some 60)))"
    by (rule nth_mem) (simp add: generate_indices_length)
  then show ?thesis
    using indices_in_range [of 2 1 "[1, 1, 1, 1]" 2 2 1 1 DEFAULT_CENTER_Z "Some 60"]
    by (simp add: generate_vertexCount)
qed

section \<open>The buffers and the rays of a generated mesh\<close>

lemma normalize3_unit:
  "(fst (normalize3 x y 1))\<^sup>2 + (fst (snd (normalize3 x y 1)))\<^sup>2
     + (snd (snd (normalize3 x y 1)))\<^sup>2 = 1"
proof -
  define l where "l = sqrt (x * x + y * y + 1 * 1)"
  have pos: "0 < x * x + y * y + 1 * 1"
    by (simp add: add_pos_nonneg add_nonneg_pos)
  then have l: "0 < l" "l\<^sup>2 = x * x + y * y + 1 * 1"
    by (simp_all add: l_def)
  have "(x / l)\<^sup>2 + (y / l)\<^sup>2 + (1 / l)\<^sup>2 = (x * x + y * y + 1 * 1) / l\<^sup>2"
    by (simp add: power_divide power2_eq_square add_divide_distrib)
  also have "\<dots> = 1" using l pos by simp
  finally show ?thesis
    using l(1) unfolding normalize3_def Let_def l_def [symmetric] by simp
qed

lemma meshVertex_state:
  "vl_index (meshVertex g w h mX mY dmin wm hm tx ty lat lon s) = vl_index s + 1
   \<and> length (vl_positions (meshVertex g w h mX mY dmin wm hm tx ty lat lon s)) = length (vl_positions s)
   \<and> length (vl_rayDirections (meshVertex g w h mX mY dmin wm hm tx ty lat lon s)) = length (vl_rayDirections s)
   \<and> length (vl_baseDepths (meshVertex g w h mX mY dmin wm hm tx ty lat lon s)) = length (vl_baseDepths s)
   \<and> length (vl_uvs (meshVertex g w h mX mY dmin wm hm tx ty lat lon s)) = length (vl_uvs s)"
  by (simp add: meshVertex_def Let_def)

lemma meshVertex_rays:
  assumes "\<forall>j < vl_index s. j * 3 + 2 < length (vl_rayDirections s) \<longrightarrow> unitRay (vl_rayDirections s) j"
  shows "\<forall>j < vl_index (meshVertex g w h mX mY dmin wm hm tx ty lat lon s).
           j * 3 + 2 < length (vl_rayDirections (meshVertex g w h mX mY dmin wm hm tx ty lat lon s))
           \<longrightarrow> unitRay (vl_rayDirections (meshVertex g w h mX mY dmin wm hm tx ty lat lon s)) j"
proof (intro allI impI)
  fix j
  let ?s' = "meshVertex g w h mX mY dmin wm hm tx ty lat lon s"
  assume j: "j < vl_index ?s'" and r: "j * 3 + 2 < length (vl_rayDirections ?s')"
  define i where "i = vl_index s"
  obtain a b c where rd: "vl_rayDirections ?s' = (vl_rayDirections s)[i * 3 := a, i * 3 + 1 := b, i * 3 + 2 := - c]"
    and u: "a\<^sup>2 + b\<^sup>2 + c\<^sup>2 = 1"
    using normalize3_unit by (simp add: meshVertex_def Let_def i_def)
  from r have r': "j * 3 + 2 < length (vl_rayDirections s)"
    by (simp add: meshVertex_state)
  show "unitRay (vl_rayDirections ?s') j"
  proof (cases "j = i")
    case True
    with r' u show ?thesis
      unfolding unitRay_def rd by simp
  next
    case False
    with j have "j < i" by (simp add: meshVertex_state i_def)
    then have "unitRay (vl_rayDirections s) j"
      using assms r' by (simp add: i_def)
    moreover have "j * 3 \<noteq> i * 3" "j * 3 \<noteq> i * 3 + 1" "j * 3 \<noteq> i * 3 + 2"
      "j * 3 + 1 \<noteq> i * 3" "j * 3 + 1 \<noteq> i * 3 + 1" "j * 3 + 1 \<noteq> i * 3 + 2"
      "j * 3 + 2 \<noteq> i * 3" "j * 3 + 2 \<noteq> i * 3 + 1" "j * 3 + 2 \<noteq> i * 3 + 2"
      using \<open>j < i\<close> by simp_all
    ultimately show ?thesis
      unfolding unitRay_def rd by simp
  qed
qed

lemma meshVertices_state:
  "vl_index (fold (\<lambda>lat. fold (meshVertex g w h mX mY dmin wm hm tx ty lat) lons) lats s)
     = vl_index s + length lats * length lons
   \<and> length (vl_positions (fold (\<lambda>lat. fold (meshVertex g w h mX mY dmin wm hm tx ty lat) lons) lats s))
     = length (vl_positions s)
   \<and> length (vl_rayDirections (fold (\<lambda>lat. fold (meshVertex g w h mX mY dmin wm hm tx ty lat) lons) lats s))
     = length (vl_rayDirections s)
   \<and> length (vl_baseDepths (fold (\<lambda>lat. fold (meshVertex g w h mX mY dmin wm hm tx ty lat) lons) lats s))
     = length (vl_baseDepths s)"
proof -
  have row: "vl_index (fold (meshVertex g w h mX mY dmin wm hm tx ty lat) ls t) = vl_index t + length ls
      \<and> length (vl_positions (fold (meshVertex g w h mX mY dmin wm hm tx ty lat) ls t)) = length (vl_positions t)
      \<and> length (vl_rayDirections (fold (meshVertex g w h mX mY dmin wm hm tx ty lat) ls t)) = length (vl_rayDirections t)
      \<and> length (vl_baseDepths (fold (meshVertex g w h mX mY dmin wm hm tx ty lat) ls t)) = length (vl_baseDepths t)"
    for lat ls t
    by (induction ls arbitrary: t) (simp_all add: meshVertex_state)
  show ?thesis
    by (induction lats arbitrary: s) (simp_all add: row)
qed

lemma meshVertices_rays:
  assumes "\<forall>j < vl_index s. j * 3 + 2 < length (vl_rayDirections s) \<longrightarrow> unitRay (vl_rayDirections s) j"
  shows "\<forall>j < vl_index (fold (\<lambda>lat. fold (meshVertex g w h mX mY dmin wm hm tx ty lat) lons) lats s).
           j * 3 + 2 < length (vl_rayDirections
              (fold (\<lambda>lat. fold (meshVertex g w h mX mY dmin wm hm tx ty lat) lons) lats s))
           \<longrightarrow> unitRay (vl_rayDirections
              (fold (\<lambda>lat. fold (meshVertex g w h mX mY dmin wm hm tx ty lat) lons) lats s)) j"
proof (rule fold_invariant [where I = "\<lambda>s. \<forall>j < vl_index s.
    j * 3 + 2 < length (vl_rayDirections s) \<longrightarrow> unitRay (vl_rayDirections s) j"])
  show "\<forall>j < vl_index s. j * 3 + 2 < length (vl_rayDirections s) \<longrightarrow> unitRay (vl_rayDirections s) j"
    by (rule assms)
next
  fix lat and t :: vertex_loop
  assume t: "\<forall>j < vl_index t. j * 3 + 2 < length (vl_rayDirections t) \<longrightarrow> unitRay (vl_rayDirections t) j"
  show "\<forall>j < vl_index (fold (meshVertex g w h mX mY dmin wm hm tx ty lat) lons t).
      j * 3 + 2 < length (vl_rayDirections (fold (meshVertex g w h mX mY dmin wm hm tx ty lat) lons t))
      \<longrightarrow> unitRay (vl_rayDirections (fold (meshVertex g w h mX mY dmin wm hm tx ty lat) lons t)) j"
    by (rule fold_invariant [where I = "\<lambda>s. \<forall>j < vl_index s.
        j * 3 + 2 < length (vl_rayDirections s) \<longrightarrow> unitRay (vl_rayDirections s) j"],
        rule t, rule meshVertex_rays)
qed

lemma generate_vertex_loop:
  fixes g w h mX mY dmin cz fov
  defines "s0 \<equiv> \<lparr>vl_positions = replicate ((mX + 1) * (mY + 1) * 3) 0,
          vl_rayDirections = replicate ((mX + 1) * (mY + 1) * 3) 0,
          vl_baseDepths = replicate ((mX + 1) * (mY + 1)) 0,
          vl_uvs = replicate ((mX + 1) * (mY + 1) * 2) 0,
          vl_baseMinZ = None, vl_baseMaxZ = None, vl_index = 0\<rparr>"
  shows "\<exists>wm hm tx ty.
           positions (generatePerspectiveMesh g w h mX mY dmin dmax cz fov) =
             vl_positions (fold (\<lambda>lat. fold (meshVertex g w h mX mY dmin wm hm tx ty lat) [0..<mX + 1])
                             [0..<mY + 1] s0)
         \<and> rayDirections (generatePerspectiveMesh g w h mX mY dmin dmax cz fov) =
             vl_rayDirections (fold (\<lambda>lat. fold (meshVertex g w h mX mY dmin wm hm tx ty lat) [0..<mX + 1])
                             [0..<mY + 1] s0)
         \<and> baseDepths (generatePerspectiveMesh g w h mX mY dmin dmax cz fov) =
             vl_baseDepths (fold (\<lambda>lat. fold (meshVertex g w h mX mY dmin wm hm tx ty lat) [0..<mX + 1])
                             [0..<mY + 1] s0)"
  unfolding generatePerspectiveMesh_def Let_def s0_def
  by (intro exI) (simp only: mesh_descriptor.simps simp_thms)

lemma generate_buffers:
  "length (positions (generatePerspectiveMesh g w h mX mY dmin dmax cz fov)) = 3 * ((mX + 1) * (mY + 1))
   \<and> length (rayDirections (generatePerspectiveMesh g w h mX mY dmin dmax cz fov)) = 3 * ((mX + 1) * (mY + 1))
   \<and> length (baseDepths (generatePerspectiveMesh g w h mX mY dmin dmax cz fov)) = (mX + 1) * (mY + 1)"
proof -
  obtain wm hm tx ty where
    "positions (generatePerspectiveMesh g w h mX mY dmin dmax cz fov) =
       vl_positions (fold (\<lambda>lat. fold (meshVertex g w h mX mY dmin wm hm tx ty lat) [0..<mX + 1])
         [0..<mY + 1] \<lparr>vl_positions = replicate ((mX + 1) * (mY + 1) * 3) 0,
          vl_rayDirections = replicate ((mX + 1) * (mY + 1) * 3) 0,
          vl_baseDepths = replicate ((mX + 1) * (mY + 1)) 0,
          vl_uvs = replicate ((mX + 1) * (mY + 1) * 2) 0,
          vl_baseMinZ = None, vl_baseMaxZ = None, vl_index = 0\<rparr>)"
    "rayDirections (generatePerspectiveMesh g w h mX mY dmin dmax cz fov) =
       vl_rayDirections (fold (\<lambda>lat. fold (meshVertex g w h mX mY dmin wm hm tx ty lat) [0..<mX + 1])
         [0..<mY + 1] \<lparr>vl_positions = replicate ((mX + 1) * (mY + 1) * 3) 0,
          vl_rayDirections = replicate ((mX + 1) * (mY + 1) * 3) 0,
          vl_baseDepths = replicate ((mX + 1) * (mY + 1)) 0,
          vl_uvs = replicate ((mX + 1) * (mY + 1) * 2) 0,
          vl_baseMinZ = None, vl_baseMaxZ = None, vl_index = 0\<rparr>)"
    "baseDepths (generatePerspectiveMesh g w h mX mY dmin dmax cz fov) =
       vl_baseDepths (fold (\<lambda>lat. fold (meshVertex g w h mX mY dmin wm hm tx ty lat) [0..<mX + 1])
         [0..<mY + 1] \<lparr>vl_positions = replicate ((mX + 1) * (mY + 1) * 3) 0,
          vl_rayDirections = replicate ((mX + 1) * (mY + 1) * 3) 0,
          vl_baseDepths = replicate ((mX + 1) * (mY + 1)) 0,
          vl_uvs = replicate ((mX + 1) * (mY + 1) * 2) 0,
          vl_baseMinZ = None, vl_baseMaxZ = None, vl_index = 0\<rparr>)"
    using generate_vertex_loop [of g w h mX mY dmin dmax cz fov] by blast
  then show ?thesis
    by (simp only: meshVertices_state) simp
qed

lemma generate_rays_unit:
  assumes "i < (mX + 1) * (mY + 1)"
  shows "unitRay (rayDirections (generatePerspectiveMesh g w h mX mY dmin dmax cz fov)) i"
proof -
  define s0 where "s0 = \<lparr>vl_positions = replicate ((mX + 1) * (mY + 1) * 3) (0::real),
          vl_rayDirections = replicate ((mX + 1) * (mY + 1) * 3) (0::real),
          vl_baseDepths = replicate ((mX + 1) * (mY + 1)) (0::real),
          vl_uvs = replicate ((mX + 1) * (mY + 1) * 2) (0::real),
          vl_baseMinZ = None, vl_baseMaxZ = None, vl_index = 0\<rparr>"
  obtain wm hm tx ty where rd:
    "rayDirections (generatePerspectiveMesh g w h mX mY dmin dmax cz fov) =
       vl_rayDirections (fold (\<lambda>lat. fold (meshVertex g w h mX mY dmin wm hm tx ty lat) [0..<mX + 1])
         [0..<mY + 1] s0)"
    using generate_vertex_loop [of g w h mX mY dmin dmax cz fov] unfolding s0_def by blast
  let ?vs = "fold (\<lambda>lat. fold (meshVertex g w h mX mY dmin wm hm tx ty lat) [0..<mX + 1]) [0..<mY + 1] s0"
  have st: "vl_index ?vs = vl_index s0 + length [0..<mY + 1] * length [0..<mX + 1]"
    "length (vl_rayDirections ?vs) = length (vl_rayDirections s0)"
    using meshVertices_state [of g w h mX mY dmin wm hm tx ty "[0..<mX + 1]" "[0..<mY + 1]" s0]
    by blast+
  have idx: "vl_index ?vs = (mX + 1) * (mY + 1)"
    unfolding st by (simp add: s0_def)
  have len: "length (vl_rayDirections ?vs) = (mX + 1) * (mY + 1) * 3"
    unfolding st by (simp add: s0_def)
  have "\<forall>j < vl_index ?vs. j * 3 + 2 < length (vl_rayDirections ?vs) \<longrightarrow> unitRay (vl_rayDirections ?vs) j"
    by (rule meshVertices_rays) (simp add: s0_def)
  moreover have "i < vl_index ?vs" "i * 3 + 2 < length (vl_rayDirections ?vs)"
    using assms unfolding idx len by simp_all
  ultimately show ?thesis
    unfolding rd by blast
qed

section \<open>The depth remapper\<close>

lemma remapVertex_frame:
  "rayDirections (remapVertex md fl opts i s) = rayDirections s
   \<and> baseDepths (remapVertex md fl opts i s) = baseDepths s
   \<and> uvs (remapVertex md fl opts i s) = uvs s
   \<and> indices (remapVertex md fl opts i s) = indices s
   \<and> length (positions (remapVertex md fl opts i s)) = length (positions s)"
  by (simp add: remapVertex_def Let_def)

lemma remap_loop_frame:
  "rayDirections (fold (remapVertex md fl opts) xs m) = rayDirections m
   \<and> baseDepths (fold (remapVertex md fl opts) xs m) = baseDepths m
   \<and> uvs (fold (remapVertex md fl opts) xs m) = uvs m
   \<and> indices (fold (remapVertex md fl opts) xs m) = indices m
   \<and> length (positions (fold (remapVertex md fl opts) xs m)) = length (positions m)"
  by (rule fold_invariant) (simp_all add: remapVertex_frame)

text \<open>
  Claim C9. For every mesh and every options, \<open>updateVertexPositions\<close> rewrites the position
  buffer only: the ray directions, the base depths, the texture coordinates and the
  indices of the mesh are the same after the call.
\<close>

theorem remap_frame:
  "rayDirections (updateVertexPositions mesh opts) = rayDirections mesh
   \<and> baseDepths (updateVertexPositions mesh opts) = baseDepths mesh
   \<and> uvs (updateVertexPositions mesh opts) = uvs mesh
   \<and> indices (updateVertexPositions mesh opts) = indices mesh"
  by (simp add: updateVertexPositions_def Let_def remap_loop_frame)

lemma remap_loop_positions:
  assumes "n \<le> length (baseDepths m)"
    and "length (positions m) = 3 * length (baseDepths m)"
    and "i < n" and "k < 3"
  shows "positions (fold (remapVertex md fl opts) [0..<n] m) ! (i * 3 + k) =
           rayDirections m ! (i * 3 + k) * remapDepth md fl opts (baseDepths m ! i)"
  using assms
proof (induction n)
  case 0
  then show ?case by simp
next
  case (Suc n)
  let ?s = "fold (remapVertex md fl opts) [0..<n] m"
  have fr: "rayDirections ?s = rayDirections m" "baseDepths ?s = baseDepths m"
    "length (positions ?s) = length (positions m)"
    using remap_loop_frame [of md fl opts "[0..<n]" m] by simp_all
  have st: "positions (fold (remapVertex md fl opts) [0..<Suc n] m) =
      (positions ?s)[n * 3 := rayDirections m ! (n * 3) * remapDepth md fl opts (baseDepths m ! n),
                     n * 3 + 1 := rayDirections m ! (n * 3 + 1) * remapDepth md fl opts (baseDepths m ! n),
                     n * 3 + 2 := rayDirections m ! (n * 3 + 2) * remapDepth md fl opts (baseDepths m ! n)]"
    by (simp add: remapVertex_def Let_def fr)
  have inr: "n * 3 + 2 < length (positions ?s)"
    using Suc.prems by (simp add: fr)
  show ?case
  proof (cases "i = n")
    case True
    with \<open>k < 3\<close> have "k = 0 \<or> k = 1 \<or> k = 2" by auto
    with True inr show ?thesis
      unfolding st by auto
  next
    case False
    with Suc.prems have "i < n" by simp
    then have "i * 3 + k \<noteq> n * 3" "i * 3 + k \<noteq> n * 3 + 1" "i * 3 + k \<noteq> n * 3 + 2"
      using \<open>k < 3\<close> by auto
    then have "positions (fold (remapVertex md fl opts) [0..<Suc n] m) ! (i * 3 + k) =
        positions ?s ! (i * 3 + k)"
      unfolding st by simp
    with \<open>i < n\<close> Suc show ?thesis by simp
  qed
qed

lemma remap_positions:
  assumes "length (positions mesh) = 3 * length (baseDepths mesh)"
    and "i < length (baseDepths mesh)" and "k < 3"
  shows "positions (updateVertexPositions mesh opts) ! (i * 3 + k) =
           rayDirections mesh ! (i * 3 + k) *
             remapDepth (max (baseDepthMin mesh) MIN_DEPTH_CLAMP)
               (case farClip opts of Num f \<Rightarrow> Some f | _ \<Rightarrow> None) opts (baseDepths mesh ! i)"
  using assms by (simp add: updateVertexPositions_def Let_def remap_loop_positions)

text \<open>
  Claim C2 as it is written fails at a vertex whose base depth is the minimum of the mesh:
  line 374 moves it to \<open>minDepth + 0.001\<close>. In the mesh of one cell, vertex 0 has base depth
  1 and \<open>baseDepthMin\<close> is 1, so its third coordinate becomes \<open>- 12 / 13 * 1.001\<close>.
\<close>

theorem remap_identity_counterexample:
  "positions (updateVertexPositions quadMesh
      \<lparr>magnification = 1, farClip = PosInfinity, mode = ''linear'', logPower = 1\<rparr>) ! 2
   \<noteq> rayDirections quadMesh ! 2 * baseDepths quadMesh ! 0"
  by (simp add: updateVertexPositions_def remapVertex_def remapDepth_def scaledDepth_def
      minLimit_def MIN_DEPTH_CLAMP_def quadMesh_def Let_def)

text \<open>
  Claim C2, amended. With \<open>mode = linear\<close>, \<open>magnification = 1\<close> and \<open>farClip\<close> infinite, every
  vertex whose base depth is at least \<open>max(baseDepthMin, 0.15) + 0.001\<close> gets the position
  \<open>rayDirection * baseDepth\<close>, component by component. The mesh has three positions and
  three ray components per vertex, as the meshes of \<open>generatePerspectiveMesh\<close> have
  (\<open>generate_buffers\<close>).
\<close>

theorem remap_identity:
  assumes "length (positions mesh) = 3 * length (baseDepths mesh)"
    and "i < length (baseDepths mesh)" and "k < 3"
    and "mode opts = ''linear''" and "magnification opts = 1" and "farClip opts = PosInfinity"
    and "max (baseDepthMin mesh) 0.15 + 0.001 \<le> baseDepths mesh ! i"
    and "length (rayDirections mesh) = 3 * length (baseDepths mesh)"
  shows "positions (updateVertexPositions mesh opts) ! (i * 3 + k) =
           rayDirections mesh ! (i * 3 + k) * baseDepths mesh ! i"
proof -
  have "remapDepth (max (baseDepthMin mesh) MIN_DEPTH_CLAMP) None opts (baseDepths mesh ! i)
          = baseDepths mesh ! i"
    using assms(4,5,7)
    by (simp add: remapDepth_def scaledDepth_def Let_def minLimit_def MIN_DEPTH_CLAMP_def)
  with remap_positions [OF assms(1,2,3), of opts] assms(6) show ?thesis by simp
qed

text \<open>Vertex 1 of the mesh of one cell has base depth 2, above \<open>1.001\<close>.\<close>

theorem remap_identity_witness:
  "length (positions quadMesh) = 3 * length (baseDepths quadMesh)
   \<and> length (rayDirections quadMesh) = 3 * length (baseDepths quadMesh)
   \<and> 1 < length (baseDepths quadMesh)
   \<and> max (baseDepthMin quadMesh) 0.15 + 0.001 \<le> baseDepths quadMesh ! 1
   \<and> positions (updateVertexPositions quadMesh
        \<lparr>magnification = 1, farClip = PosInfinity, mode = ''linear'', logPower = 1\<rparr>) ! (1 * 3 + 2)
       = - 24 / 13"
  using remap_identity [of quadMesh 1 2
      "\<lparr>magnification = 1, farClip = PosInfinity, mode = ''linear'', logPower = 1\<rparr>"]
  by (simp add: quadMesh_def)

lemma unit_scaled:
  assumes "a\<^sup>2 + b\<^sup>2 + c\<^sup>2 = (1::real)" and "0 \<le> d"
  shows "sqrt ((a * d)\<^sup>2 + (b * d)\<^sup>2 + (c * d)\<^sup>2) = d"
    and "a * d * a + b * d * b + c * d * c = d"
proof -
  have "(a * d)\<^sup>2 + (b * d)\<^sup>2 + (c * d)\<^sup>2 = (a\<^sup>2 + b\<^sup>2 + c\<^sup>2) * d\<^sup>2"
    by (simp add: power_mult_distrib algebra_simps)
  with assms show "sqrt ((a * d)\<^sup>2 + (b * d)\<^sup>2 + (c * d)\<^sup>2) = d"
    by simp
  have "a * d * a + b * d * b + c * d * c = (a\<^sup>2 + b\<^sup>2 + c\<^sup>2) * d"
    by (simp add: power2_eq_square algebra_simps)
  with assms show "a * d * a + b * d * b + c * d * c = d"
    by simp
qed

text \<open>
  Claim C3. With \<open>farClip = 5\<close>, a vertex whose shaped and magnified depth (\<open>scaled\<close>, line
  373) exceeds 5 is moved to \<open>rayDirection * 5\<close>; its stored ray has unit length, so the
  position has length 5 and its component along the ray is 5. The rays that
  \<open>generatePerspectiveMesh\<close> stores have unit length (\<open>generate_rays_unit\<close>) and its buffers
  have three entries per vertex (\<open>generate_buffers\<close>).
\<close>

theorem remap_far_clamp:
  assumes "length (positions mesh) = 3 * length (baseDepths mesh)"
    and "length (rayDirections mesh) = 3 * length (baseDepths mesh)"
    and "i < length (baseDepths mesh)"
    and "farClip opts = Num 5"
    and "5 < scaledDepth (max (baseDepthMin mesh) MIN_DEPTH_CLAMP) opts (baseDepths mesh ! i)"
    and "unitRay (rayDirections mesh) i"
  shows "(let p = positions (updateVertexPositions mesh opts);
              d = rayDirections mesh
          in p ! (i * 3) = d ! (i * 3) * 5
             \<and> p ! (i * 3 + 1) = d ! (i * 3 + 1) * 5
             \<and> p ! (i * 3 + 2) = d ! (i * 3 + 2) * 5
             \<and> sqrt ((p ! (i * 3))\<^sup>2 + (p ! (i * 3 + 1))\<^sup>2 + (p ! (i * 3 + 2))\<^sup>2) = 5
             \<and> p ! (i * 3) * d ! (i * 3) + p ! (i * 3 + 1) * d ! (i * 3 + 1)
                 + p ! (i * 3 + 2) * d ! (i * 3 + 2) = 5)"
proof -
  have d: "remapDepth (max (baseDepthMin mesh) MIN_DEPTH_CLAMP) (Some 5) opts (baseDepths mesh ! i) = 5"
    using assms(5) by (simp add: remapDepth_def Let_def minLimit_def)
  have p: "positions (updateVertexPositions mesh opts) ! (i * 3 + k) =
             rayDirections mesh ! (i * 3 + k) * 5" if "k < 3" for k
    using remap_positions [OF assms(1,3) that, of opts] assms(4) d by simp
  define a b c where "a = rayDirections mesh ! (i * 3)"
    and "b = rayDirections mesh ! (i * 3 + 1)" and "c = rayDirections mesh ! (i * 3 + 2)"
  have u: "a\<^sup>2 + b\<^sup>2 + c\<^sup>2 = 1"
    using assms(6) by (simp add: unitRay_def a_def b_def c_def)
  have pa: "positions (updateVertexPositions mesh opts) ! (i * 3) = a * 5"
    using p [of 0] by (simp add: a_def)
  have pb: "positions (updateVertexPositions mesh opts) ! (i * 3 + 1) = b * 5"
    using p [of 1] by (simp add: b_def)
  have pc: "positions (updateVertexPositions mesh opts) ! (i * 3 + 2) = c * 5"
    using p [of 2] by (simp add: c_def)
  have "sqrt ((a * 5)\<^sup>2 + (b * 5)\<^sup>2 + (c * 5)\<^sup>2) = 5"
    and "a * 5 * a + b * 5 * b + c * 5 * c = 5"
    using unit_scaled [OF u, of 5] by simp_all
  then show ?thesis
    unfolding Let_def pa pb pc a_def [symmetric] b_def [symmetric] c_def [symmetric]
    by blast
qed

text \<open>Vertex 3 of the mesh of one cell has base depth 20.\<close>

theorem remap_far_clamp_witness:
  "3 < length (baseDepths quadMesh)
   \<and> 5 < scaledDepth (max (baseDepthMin quadMesh) MIN_DEPTH_CLAMP)
           \<lparr>magnification = 1, farClip = Num 5, mode = ''linear'', logPower = 1\<rparr>
           (baseDepths quadMesh ! 3)
   \<and> unitRay (rayDirections quadMesh) 3
   \<and> positions (updateVertexPositions quadMesh
        \<lparr>magnification = 1, farClip = Num 5, mode = ''linear'', logPower = 1\<rparr>) ! (3 * 3 + 2)
       = - 60 / 13"
  using remap_far_clamp [of quadMesh 3
      "\<lparr>magnification = 1, farClip = Num 5, mode = ''linear'', logPower = 1\<rparr>"]
  by (simp add: quadMesh_def scaledDepth_def unitRay_def MIN_DEPTH_CLAMP_def Let_def
      power2_eq_square)

section \<open>The sampler\<close>

lemma bilinear_form:
  "d00 + (d10 - d00) * tx + (d01 + (d11 - d01) * tx - (d00 + (d10 - d00) * tx)) * ty =
     (1 - tx) * (1 - ty) * d00 + tx * (1 - ty) * d10 + (1 - tx) * ty * d01 + tx * ty * (d11 :: real)"
  by (simp add: algebra_simps)

lemma sampleDepth_cases:
  "sampleDepth g w h x y fb =
     (if 0 < bilinearDepth g w h x y then bilinearDepth g w h x y
      else max (nearestTopLeft g w h x y) fb)"
  unfolding sampleDepth_def bilinearDepth_def nearestTopLeft_def Let_def bilinear_form ..

text \<open>
  Claim C8. Over a grid of \<open>width * height\<close> samples, \<open>sampleDepth\<close> returns the bilinear
  interpolation when it is positive; when it is not, it returns the larger of the nearest
  top-left sample and the fallback minimum. No search for a valid sample is made.
\<close>

theorem sample_fallback:
  assumes "0 < w" and "0 < h" and "length g = w * h"
  shows "(0 < bilinearDepth g w h x y \<longrightarrow> sampleDepth g w h x y fb = bilinearDepth g w h x y)
       \<and> (bilinearDepth g w h x y \<le> 0 \<longrightarrow>
            sampleDepth g w h x y fb = max (nearestTopLeft g w h x y) fb)"
  by (simp add: sampleDepth_cases)

text \<open>
  A grid of two samples, the first one missing. At \<open>(0, 0)\<close> the interpolation is 0 and the
  result is the fallback 1, although the valid sample 5 is one pixel away; at \<open>(1/2, 0)\<close>
  the interpolation is positive and is returned.
\<close>

theorem sample_fallback_witness:
  "(0::nat) < 2 \<and> (0::nat) < 1 \<and> length [0, 5 :: real] = 2 * 1
   \<and> bilinearDepth [0, 5] 2 1 0 0 \<le> 0
   \<and> sampleDepth [0, 5] 2 1 0 0 1 = 1
   \<and> 0 < bilinearDepth [0, 5] 2 1 (1 / 2) 0
   \<and> sampleDepth [0, 5] 2 1 (1 / 2) 0 1 = 5 / 2"
  using sample_fallback [of 2 1 "[0, 5]" 0 0 1] sample_fallback [of 2 1 "[0, 5]" "1 / 2" 0 1]
  by (simp add: bilinearDepth_def nearestTopLeft_def Let_def)

section \<open>The denoiser\<close>

lemma clampIndex_range:
  assumes "0 < n"
  shows "0 \<le> clampIndex v n \<and> clampIndex v n < n"
  using assms by (simp add: clampIndex_def)

lemma neighbour_in_grid:
  assumes "x < w" and "y < h"
  shows "nat (clampIndex (int y + ky) (int h) * int w + clampIndex (int x + kx) (int w)) < w * h"
proof -
  let ?ny = "clampIndex (int y + ky) (int h)" and ?nx = "clampIndex (int x + kx) (int w)"
  have ny: "0 \<le> ?ny" "?ny + 1 \<le> int h"
    using clampIndex_range [of "int h" "int y + ky"] assms by simp_all
  have nx: "0 \<le> ?nx" "?nx < int w"
    using clampIndex_range [of "int w" "int x + kx"] assms by simp_all
  have "?ny * int w + ?nx < ?ny * int w + int w" using nx by simp
  also have "\<dots> = (?ny + 1) * int w" by (simp add: algebra_simps)
  also have "\<dots> \<le> int h * int w" using ny by (intro mult_right_mono) simp_all
  finally have "?ny * int w + ?nx < int (w * h)" by (simp add: mult.commute)
  moreover have "0 \<le> ?ny * int w + ?nx" using ny nx by simp
  ultimately show ?thesis by linarith
qed

lemma neighbour_nonneg:
  assumes "x < w" and "y < h" and "length g = w * h" and "\<forall>v \<in> set g. 0 \<le> (v::real)"
  shows "0 \<le> g ! nat (clampIndex (int y + ky) (int h) * int w + clampIndex (int x + kx) (int w))"
  using assms(3,4) neighbour_in_grid [OF assms(1,2), of ky kx] by simp

lemma depthWindow_nonneg:
  assumes "x < w" and "y < h" and "length g = w * h" and "\<forall>v \<in> set g. 0 \<le> (v::real)"
  shows "\<forall>v \<in> set (depthWindow g w h x y). 0 \<le> v"
  using neighbour_nonneg [OF assms] by (auto simp: depthWindow_def Let_def)

lemma length_depthWindow: "length (depthWindow g w h x y) = 9"
  by (simp add: depthWindow_def kernelOffsets_def)

lemma median_nonneg:
  assumes "x < w" and "y < h" and "length g = w * h" and "\<forall>v \<in> set g. 0 \<le> (v::real)"
  shows "0 \<le> sort (depthWindow g w h x y) ! (length (sort (depthWindow g w h x y)) div 2)"
proof -
  have "sort (depthWindow g w h x y) ! (length (sort (depthWindow g w h x y)) div 2)
          \<in> set (sort (depthWindow g w h x y))"
    by (rule nth_mem) (simp add: length_depthWindow)
  then show ?thesis
    using depthWindow_nonneg [OF assms] by simp
qed

lemma guarded_store_cases:
  "(if a then r else if b then r else if c then u else r) = r
   \<or> (\<not> a \<and> (if a then r else if b then r else if c then u else r) = u)"
  by simp

lemma spikePixel_cases:
  "spikePixel g c w h y x r = r
   \<or> (\<not> g ! (y * w + x) \<le> 0
      \<and> spikePixel g c w h y x r =
          r[y * w + x := sort (depthWindow g w h x y) ! (length (sort (depthWindow g w h x y)) div 2)])"
  unfolding spikePixel_def Let_def by (rule guarded_store_cases)

lemma spikePixel_length: "length (spikePixel g c w h y x r) = length r"
  using spikePixel_cases [of g c w h y x r] by auto

lemma spikePixel_nonneg:
  assumes "x < w" and "y < h" and "length g = w * h" and "\<forall>v \<in> set g. 0 \<le> (v::real)"
    and "\<forall>v \<in> set r. 0 \<le> v"
  shows "\<forall>v \<in> set (spikePixel g c w h y x r). 0 \<le> v"
  using spikePixel_cases [of g c w h y x r] assms(5)
    all_list_update [OF assms(5) median_nonneg [OF assms(1-4)], of "y * w + x"]
  by auto

lemma spikePixel_keeps:
  assumes "g ! j \<le> 0" and "r ! j = g ! j"
  shows "spikePixel g c w h y x r ! j = g ! j"
  using spikePixel_cases [of g c w h y x r] assms
  by (cases "y * w + x = j") auto

lemma reduceDepthSpikes_length: "length (reduceDepthSpikes g c w h) = length g"
  unfolding reduceDepthSpikes_def
  by (rule fold_invariant [where I = "\<lambda>r. length r = length g"], simp,
      rule fold_invariant [where I = "\<lambda>r. length r = length g"], simp,
      simp add: spikePixel_length)

lemma reduceDepthSpikes_nonneg:
  assumes "length g = w * h" and "\<forall>v \<in> set g. 0 \<le> (v::real)"
  shows "\<forall>v \<in> set (reduceDepthSpikes g c w h). 0 \<le> v"
  unfolding reduceDepthSpikes_def
proof (rule fold_invariant [where I = "\<lambda>r. \<forall>v \<in> set r. 0 \<le> v"])
  show "\<forall>v \<in> set g. 0 \<le> v" by (rule assms(2))
next
  fix y and r :: "real list"
  assume y: "y \<in> set [0..<h]" and r: "\<forall>v \<in> set r. 0 \<le> v"
  show "\<forall>v \<in> set (fold (spikePixel g c w h y) [0..<w] r). 0 \<le> v"
  proof (rule fold_invariant [where I = "\<lambda>r. \<forall>v \<in> set r. 0 \<le> v"])
    show "\<forall>v \<in> set r. 0 \<le> v" by (rule r)
  next
    fix x and t :: "real list"
    assume "x \<in> set [0..<w]" and "\<forall>v \<in> set t. 0 \<le> v"
    with y show "\<forall>v \<in> set (spikePixel g c w h y x t). 0 \<le> v"
      by (intro spikePixel_nonneg assms) simp_all
  qed
qed

lemma reduceDepthSpikes_keeps:
  assumes "g ! j \<le> 0"
  shows "reduceDepthSpikes g c w h ! j = g ! j"
  unfolding reduceDepthSpikes_def
  by (rule fold_invariant [where I = "\<lambda>r. r ! j = g ! j"], simp,
      rule fold_invariant [where I = "\<lambda>r. r ! j = g ! j"], simp,
      simp add: spikePixel_keeps assms)

lemma kernel_nonneg:
  assumes "k < 9"
  shows "0 \<le> SPATIAL_KERNEL ! k"
proof -
  have "SPATIAL_KERNEL ! k \<in> set SPATIAL_KERNEL"
    using assms by (intro nth_mem) (simp add: SPATIAL_KERNEL_def)
  then show ?thesis
    by (auto simp: SPATIAL_KERNEL_def)
qed

lemma smoothNeighbour_nonneg:
  assumes "x < w" and "y < h" and "length g = w * h" and "\<forall>v \<in> set g. 0 \<le> (v::real)"
    and "0 \<le> fst st" and "0 \<le> fst (snd st)" and "snd (snd st) < 9"
  shows "0 \<le> fst (smoothNeighbour g c w h x y ce cr cg cb k st)
       \<and> 0 \<le> fst (snd (smoothNeighbour g c w h x y ce cr cg cb k st))
       \<and> snd (snd (smoothNeighbour g c w h x y ce cr cg cb k st)) = snd (snd st) + 1"
proof -
  obtain ky kx where k: "k = (ky, kx)" by (cases k)
  obtain a ws ki where st: "st = (a, ws, ki)" by (cases st)
  define nb where "nb = g ! nat (clampIndex (int y + ky) (int h) * int w + clampIndex (int x + kx) (int w))"
  have nb: "0 \<le> nb"
    unfolding nb_def by (rule neighbour_nonneg [OF assms(1-4)])
  have sp: "0 \<le> SPATIAL_KERNEL ! ki"
    using assms(7) by (simp add: st kernel_nonneg)
  have wt: "0 \<le> SPATIAL_KERNEL ! ki * exp p * exp q" for p q :: real
    using sp by simp
  have "0 \<le> nb * (SPATIAL_KERNEL ! ki * exp p * exp q)" for p q :: real
    using nb wt [of p q] by (rule mult_nonneg_nonneg)
  with wt assms(5,6) show ?thesis
    unfolding smoothNeighbour_def Let_def k st nb_def [symmetric] split fst_conv snd_conv
    by (simp add: add_nonneg_nonneg)
qed

lemma smooth_fold_nonneg:
  assumes "x < w" and "y < h" and "length g = w * h" and "\<forall>v \<in> set g. 0 \<le> (v::real)"
    and "0 \<le> fst st" and "0 \<le> fst (snd st)" and "snd (snd st) + length ks \<le> 9"
  shows "0 \<le> fst (fold (smoothNeighbour g c w h x y ce cr cg cb) ks st)
       \<and> 0 \<le> fst (snd (fold (smoothNeighbour g c w h x y ce cr cg cb) ks st))"
  using assms(5-7)
proof (induction ks arbitrary: st)
  case Nil
  then show ?case by simp
next
  case (Cons k ks)
  have "snd (snd st) < 9" using Cons.prems(3) by simp
  note step = smoothNeighbour_nonneg [OF assms(1-4) Cons.prems(1,2) this, of c ce cr cg cb k]
  have "snd (snd (smoothNeighbour g c w h x y ce cr cg cb k st)) + length ks \<le> 9"
    using step Cons.prems(3) by simp
  with step show ?case
    using Cons.IH [of "smoothNeighbour g c w h x y ce cr cg cb k st"] by simp
qed

lemma smoothedValue_nonneg:
  assumes "x < w" and "y < h" and "length g = w * h" and "\<forall>v \<in> set g. 0 \<le> (v::real)"
  shows "0 \<le> smoothedValue g c w h y x"
proof -
  define ce where "ce = g ! (y * w + x)"
  have "y * w + x < w * h"
    using neighbour_in_grid [OF assms(1,2), of 0 0] assms(1,2)
    by (simp add: clampIndex_def nat_add_distrib nat_mult_distrib)
  then have ce: "0 \<le> ce"
    using assms(3,4) by (simp add: ce_def)
  define acc where "acc = fold (smoothNeighbour g c w h x y ce
      (byteValue (c ! ((y * w + x) * 4))) (byteValue (c ! ((y * w + x) * 4 + 1)))
      (byteValue (c ! ((y * w + x) * 4 + 2)))) kernelOffsets (0, 0, 0)"
  have acc: "0 \<le> fst acc" "0 \<le> fst (snd acc)"
    unfolding acc_def
    using smooth_fold_nonneg [OF assms, of "(0, 0, 0)" kernelOffsets]
    by (simp_all add: kernelOffsets_def)
  define sm where "sm = (if fst (snd acc) > 0 then fst acc / fst (snd acc) else ce)"
  have sm: "0 \<le> sm"
    using acc ce by (simp add: sm_def)
  have "0 \<le> ce + (sm - ce) * SMOOTH_BLEND"
  proof -
    have "ce + (sm - ce) * SMOOTH_BLEND = 0.7 * ce + 0.3 * sm"
      by (simp add: SMOOTH_BLEND_def field_simps)
    with ce sm show ?thesis by simp
  qed
  then show ?thesis
    unfolding smoothedValue_def Let_def ce_def [symmetric] acc_def [symmetric] sm_def [symmetric]
    using ce by simp
qed

lemma smoothedValue_keeps:
  assumes "g ! (y * w + x) \<le> 0"
  shows "smoothedValue g c w h y x = g ! (y * w + x)"
  using assms by (simp add: smoothedValue_def Let_def)

lemma applyEdgeAwareSmooth_length: "length (applyEdgeAwareSmooth g c w h) = length g"
  unfolding applyEdgeAwareSmooth_def
  by (simp add: fold_grid_length [where f = "smoothPixel g c w h" and v = "smoothedValue g c w h"]
      smoothPixel_def)

lemma applyEdgeAwareSmooth_nth:
  assumes "length g = w * h" and "j < length g"
  shows "applyEdgeAwareSmooth g c w h ! j = smoothedValue g c w h (j div w) (j mod w)"
  unfolding applyEdgeAwareSmooth_def
  using assms
    fold_grid_nth [where f = "smoothPixel g c w h" and v = "smoothedValue g c w h" and w = w
      and h = h and r = "replicate (length g) 0" and j = j]
  by (simp add: smoothPixel_def mult.commute)

lemma applyEdgeAwareSmooth_nonneg:
  assumes "length g = w * h" and "\<forall>v \<in> set g. 0 \<le> (v::real)"
  shows "\<forall>v \<in> set (applyEdgeAwareSmooth g c w h). 0 \<le> v"
proof
  fix v
  assume "v \<in> set (applyEdgeAwareSmooth g c w h)"
  then obtain j where j: "j < length g" and v: "v = applyEdgeAwareSmooth g c w h ! j"
    by (auto simp: in_set_conv_nth applyEdgeAwareSmooth_length)
  from j assms(1) have "0 < w"
    by (cases w) simp_all
  then have x: "j mod w < w" by simp
  have y: "j div w < h"
    using j assms(1) by (simp add: less_mult_imp_div_less mult.commute)
  show "0 \<le> v"
    unfolding v applyEdgeAwareSmooth_nth [OF assms(1) j]
    by (rule smoothedValue_nonneg [OF x y assms])
qed

lemma applyEdgeAwareSmooth_keeps:
  assumes "length g = w * h" and "j < length g" and "g ! j \<le> 0"
  shows "applyEdgeAwareSmooth g c w h ! j = g ! j"
proof -
  have "j div w * w + j mod w = j" by simp
  then show ?thesis
    using assms(3) by (simp add: applyEdgeAwareSmooth_nth [OF assms(1,2)] smoothedValue_keeps)
qed

text \<open>
  Claim C4. Over a grid of \<open>width * height\<close> depths that are all 0 or positive, with its
  colour buffer, the output of the spike rejection, the output of the bilateral smoothing
  that follows it, and so the output of \<open>preprocessDepth\<close>, hold no negative value; and a
  pixel whose depth is not positive has the same depth after the first pass and after both.
\<close>

theorem denoiser_sign_invariant:
  assumes "length g = w * h" and "length c = w * h * 4" and "\<forall>v \<in> set g. 0 \<le> v"
  shows "(\<forall>v \<in> set (reduceDepthSpikes g c w h). 0 \<le> v)
       \<and> (\<forall>v \<in> set (applyEdgeAwareSmooth (reduceDepthSpikes g c w h) c w h). 0 \<le> v)
       \<and> (\<forall>v \<in> set (preprocessDepth g c w h). 0 \<le> v)
       \<and> (\<forall>j < length g. g ! j \<le> 0 \<longrightarrow>
             reduceDepthSpikes g c w h ! j = g ! j \<and> preprocessDepth g c w h ! j = g ! j)"
proof -
  let ?a = "reduceDepthSpikes g c w h"
  have la: "length ?a = w * h"
    using assms(1) by (simp add: reduceDepthSpikes_length)
  have na: "\<forall>v \<in> set ?a. 0 \<le> v"
    using assms(1,3) by (rule reduceDepthSpikes_nonneg)
  have nb: "\<forall>v \<in> set (applyEdgeAwareSmooth ?a c w h). 0 \<le> v"
    using la na by (rule applyEdgeAwareSmooth_nonneg)
  have keep: "?a ! j = g ! j \<and> applyEdgeAwareSmooth ?a c w h ! j = g ! j"
    if "j < length g" and "g ! j \<le> 0" for j
  proof -
    have a: "?a ! j = g ! j"
      using that(2) by (rule reduceDepthSpikes_keeps)
    have "applyEdgeAwareSmooth ?a c w h ! j = ?a ! j"
      using la that a assms(1) by (intro applyEdgeAwareSmooth_keeps) simp_all
    with a show ?thesis by simp
  qed
  from na nb keep show ?thesis
    by (simp add: preprocessDepth_def Let_def)
qed

text \<open>A grid of two by two pixels of one colour, the second pixel missing.\<close>

theorem denoiser_sign_invariant_witness:
  "length [1, 0, 2, 3 :: real] = 2 * 2 \<and> length (replicate 16 (0 :: byte)) = 2 * 2 * 4
   \<and> 0 \<le> preprocessDepth [1, 0, 2, 3] (replicate 16 0) 2 2 ! 0
   \<and> preprocessDepth [1, 0, 2, 3] (replicate 16 0) 2 2 ! 1 = 0"
proof -
  let ?g = "[1, 0, 2, 3 :: real]" and ?c = "replicate 16 (0 :: byte)"
  have h1: "length ?g = 2 * 2" by simp
  have h2: "length ?c = 2 * 2 * 4" by simp
  have h3: "\<forall>v \<in> set ?g. 0 \<le> v" by simp
  note inv = denoiser_sign_invariant [OF h1 h2 h3]
  have nonneg: "\<forall>v \<in> set (preprocessDepth ?g ?c 2 2). 0 \<le> v"
    using inv by (elim conjE)
  have keep: "\<forall>j < length ?g. ?g ! j \<le> 0 \<longrightarrow>
      reduceDepthSpikes ?g ?c 2 2 ! j = ?g ! j \<and> preprocessDepth ?g ?c 2 2 ! j = ?g ! j"
    using inv by (elim conjE)
  have "length (preprocessDepth ?g ?c 2 2) = 4"
    by (simp add: preprocessDepth_def applyEdgeAwareSmooth_length reduceDepthSpikes_length)
  then have "preprocessDepth ?g ?c 2 2 ! 0 \<in> set (preprocessDepth ?g ?c 2 2)"
    by (intro nth_mem) simp
  with nonneg have a: "0 \<le> preprocessDepth ?g ?c 2 2 ! 0"
    by (rule bspec)
  have "(1::nat) < length ?g" "?g ! 1 \<le> 0" "?g ! 1 = 0" by simp_all
  with keep have b: "preprocessDepth ?g ?c 2 2 ! 1 = 0"
    by metis
  from h1 h2 a b show ?thesis by (intro conjI)
qed

section \<open>Mesh density selection\<close>

lemma meshCandidate_cases:
  "meshCandidate A mn mx t st = st
   \<or> (\<exists>cx cy. meshCandidate A mn mx t st = (Some \<bar>real_of_int cx / real_of_int cy - A\<bar>, cx, cy)
        \<and> mn \<le> cx * cy \<and> cx * cy \<le> mx
        \<and> (case fst st of None \<Rightarrow> True | Some e \<Rightarrow> \<bar>real_of_int cx / real_of_int cy - A\<bar> < e))"
  unfolding meshCandidate_def Let_def by (auto simp: not_less)

lemma meshCandidate_keeps_best:
  assumes "bestInBand A mn mx st" and "the (fst st) \<le> b"
  shows "bestInBand A mn mx (meshCandidate A mn mx t st)
       \<and> the (fst (meshCandidate A mn mx t st)) \<le> b"
  using meshCandidate_cases [of A mn mx t st] assms
  by (auto simp: bestInBand_def split: prod.splits)

lemma meshCandidates_keep_best:
  assumes "bestInBand A mn mx st" and "the (fst st) \<le> b"
  shows "bestInBand A mn mx (fold (meshCandidate A mn mx) ts st)
       \<and> the (fst (fold (meshCandidate A mn mx) ts st)) \<le> b"
proof (rule fold_invariant [where I = "\<lambda>s. bestInBand A mn mx s \<and> the (fst s) \<le> b"])
  show "bestInBand A mn mx st \<and> the (fst st) \<le> b"
    using assms by simp
next
  fix t and s :: "real option \<times> int \<times> int"
  assume "bestInBand A mn mx s \<and> the (fst s) \<le> b"
  then show "bestInBand A mn mx (meshCandidate A mn mx t s)
      \<and> the (fst (meshCandidate A mn mx t s)) \<le> b"
    by (intro meshCandidate_keeps_best) simp_all
qed

lemma sqrt_250000: "sqrt (real_of_int 250000 * (1920 / 1080)) = 2000 / 3"
  by (rule real_sqrt_unique) (simp_all add: power2_eq_square)

lemma round_x: "js_round (sqrt (real_of_int 250000 * (1920 / 1080))) = 667"
  unfolding sqrt_250000 js_round_def by (simp add: floor_eq_iff)

lemma round_y: "js_round (real_of_int 250000 / real_of_int 667) = 375"
  unfolding js_round_def by (simp add: floor_eq_iff)

lemma candidate_250000:
  "meshCandidate (1920 / 1080) 248000 252000 250000 st =
     (if (case fst st of None \<Rightarrow> True | Some e \<Rightarrow> 1 / 1125 < e) then (Some (1 / 1125), 667, 375)
      else st)"
proof -
  have e: "\<bar>real_of_int 667 / real_of_int 375 - 1920 / 1080\<bar> = 1 / 1125" by simp
  show ?thesis
    unfolding meshCandidate_def Let_def round_x round_y e
    by simp
qed

lemma candidate_250000_best:
  assumes "st = (None, 0, 0) \<or> bestInBand (1920 / 1080) 248000 252000 st"
  shows "bestInBand (1920 / 1080) 248000 252000
           (meshCandidate (1920 / 1080) 248000 252000 250000 st)
       \<and> the (fst (meshCandidate (1920 / 1080) 248000 252000 250000 st)) \<le> 1 / 1125"
  using assms unfolding candidate_250000
  by (auto simp: bestInBand_def split: option.splits)

lemma meshCandidates_best_or_none:
  assumes "st = (None, 0, 0) \<or> bestInBand A mn mx st"
  shows "fold (meshCandidate A mn mx) ts st = (None, 0, 0)
       \<or> bestInBand A mn mx (fold (meshCandidate A mn mx) ts st)"
proof (rule fold_invariant [where I = "\<lambda>s. s = (None, 0, 0) \<or> bestInBand A mn mx s"])
  show "st = (None, 0, 0) \<or> bestInBand A mn mx st" by (rule assms)
next
  fix t and s :: "real option \<times> int \<times> int"
  assume "s = (None, 0, 0) \<or> bestInBand A mn mx s"
  then show "meshCandidate A mn mx t s = (None, 0, 0) \<or> bestInBand A mn mx (meshCandidate A mn mx t s)"
    using meshCandidate_cases [of A mn mx t s]
    by (auto simp: bestInBand_def)
qed

lemma best_through_250000:
  "bestInBand (1920 / 1080) 248000 252000
     (fold (meshCandidate (1920 / 1080) 248000 252000) (ts1 @ 250000 # ts2) (None, 0, 0))
   \<and> the (fst (fold (meshCandidate (1920 / 1080) 248000 252000) (ts1 @ 250000 # ts2) (None, 0, 0)))
       \<le> 1 / 1125"
proof -
  let ?f = "meshCandidate (1920 / 1080) 248000 252000"
  define s1 where "s1 = fold ?f ts1 (None, 0, 0)"
  define s2 where "s2 = ?f 250000 s1"
  have "s1 = (None, 0, 0) \<or> bestInBand (1920 / 1080) 248000 252000 s1"
    unfolding s1_def by (rule meshCandidates_best_or_none) simp
  then have "bestInBand (1920 / 1080) 248000 252000 s2 \<and> the (fst s2) \<le> 1 / 1125"
    unfolding s2_def by (rule candidate_250000_best)
  then have "bestInBand (1920 / 1080) 248000 252000 (fold ?f ts2 s2)
      \<and> the (fst (fold ?f ts2 s2)) \<le> 1 / 1125"
    by (intro meshCandidates_keep_best) simp_all
  then show ?thesis
    by (simp add: s1_def s2_def)
qed

lemma bestInBand_result:
  assumes "bestInBand A mn mx st" and "the (fst st) \<le> b"
  shows "(case snd st of (columns, rows) \<Rightarrow>
            mn \<le> columns * rows \<and> columns * rows \<le> mx
            \<and> \<bar>real_of_int columns / real_of_int rows - A\<bar> \<le> b)"
  using assms by (auto simp: bestInBand_def split: prod.splits)

lemma band_split: "[248000..252000] = [248000..249999] @ 250000 # [250001..252000 :: int]"
proof -
  have a: "(249999::int) + 1 = 250000" "(250000::int) + 1 = 250001" by simp_all
  have "[248000..252000 :: int] = [248000..249999] @ [249999 + 1..252000]"
    by (rule upto_split2) simp_all
  moreover have "[250000..252000 :: int] = 250000 # [250000 + 1..252000]"
    by (rule upto_rec1) simp
  ultimately show ?thesis
    by (simp only: a)
qed

lemma band_1920_1080:
  "findBestMeshSize 1920 1080 TARGET_MESH MESH_DIFF =
     snd (fold (meshCandidate (1920 / 1080) 248000 252000)
            ([248000..249999] @ 250000 # [250001..252000]) (None, 0, 0))"
proof -
  have "max 1 (TARGET_MESH - MESH_DIFF) = 248000" "TARGET_MESH + MESH_DIFF = 252000"
    by (simp_all add: TARGET_MESH_def MESH_DIFF_def)
  moreover have "real 1920 / real 1080 = 1920 / 1080" by simp
  ultimately show ?thesis
    unfolding findBestMeshSize_def Let_def by (simp only: band_split)
qed

text \<open>
  Claim C6. With the default budget 250000 and tolerance 2000, \<open>findBestMeshSize(1920, 1080)\<close>
  returns columns and rows whose product lies in \<open>[248000, 252000]\<close> and whose quotient is
  within 0.01 of \<open>1920 / 1080\<close>. The candidate \<open>t = 250000\<close> gives 667 columns and 375 rows,
  of ratio error \<open>1 / 1125\<close>, and the loop keeps a candidate in the band that is at least as
  good.
\<close>

theorem mesh_density_1920_1080:
  "(case findBestMeshSize 1920 1080 TARGET_MESH MESH_DIFF of
      (columns, rows) \<Rightarrow>
        248000 \<le> columns * rows \<and> columns * rows \<le> 252000
        \<and> \<bar>real_of_int columns / real_of_int rows - 1920 / 1080\<bar> < 0.01)"
proof -
  obtain columns rows where r: "findBestMeshSize 1920 1080 TARGET_MESH MESH_DIFF = (columns, rows)"
    by (cases "findBestMeshSize 1920 1080 TARGET_MESH MESH_DIFF")
  have "248000 \<le> columns * rows \<and> columns * rows \<le> 252000
      \<and> \<bar>real_of_int columns / real_of_int rows - 1920 / 1080\<bar> \<le> 1 / 1125"
    using bestInBand_result [OF best_through_250000 [THEN conjunct1] best_through_250000 [THEN conjunct2],
        of "[248000..249999]" "[250001..252000]"]
    unfolding band_1920_1080 [symmetric] r by (simp only: prod.case)
  then show ?thesis
    unfolding r by simp
qed

end
